theory Spec2Isabelle
  imports Complex_Main "HOL-Library.Sublist"
begin

section \<open>Python values and exceptions\<close>

text \<open>
  The two notebooks are straight-line Python over decoded JSON, lists and strings.
  An exception that ends a cell is a value of \<open>pyerror\<close>; a computation that may
  raise returns \<open>pyerror + 'a\<close> with \<open>Inl\<close> for the exception.
  \<open>RequestError\<close> stands for whatever the HTTP library raises (no connection, a body
  that is not JSON).
\<close>

datatype pyerror =
  KeyError | IndexError | TypeError | AttributeError | ValueError
  | ZeroDivisionError | NameError | RequestError

definition ebind :: "pyerror + 'a \<Rightarrow> ('a \<Rightarrow> pyerror + 'b) \<Rightarrow> pyerror + 'b" where
  "ebind m f = (case m of Inl e \<Rightarrow> Inl e | Inr v \<Rightarrow> f v)"

text \<open>
  What \<open>response.json()\<close> yields. Numbers are never computed with by the search
  notebook (the cloud cover is copied), so their representation \<open>'n\<close> is left open.
  \<open>JObj\<close> holds the items of a dict; a decoded dict has no key twice.
\<close>

datatype 'n json =
  JNull | JBool bool | JNum 'n | JStr string
  | JArr "'n json list" | JObj "(string \<times> 'n json) list"

text \<open>\<open>v[k]\<close> for a string key \<open>k\<close>.\<close>

fun py_getitem :: "'n json \<Rightarrow> string \<Rightarrow> pyerror + 'n json" where
  "py_getitem (JObj kvs) k = (case map_of kvs k of None \<Rightarrow> Inl KeyError | Some v \<Rightarrow> Inr v)"
| "py_getitem _ k = Inl TypeError"

text \<open>\<open>v[0]\<close>: the first element of a list, the first character of a string. A decoded
  dict has string keys only, so \<open>0\<close> is never one of them.\<close>

fun py_getitem0 :: "'n json \<Rightarrow> pyerror + 'n json" where
  "py_getitem0 (JArr []) = Inl IndexError"
| "py_getitem0 (JArr (x # xs)) = Inr x"
| "py_getitem0 (JStr []) = Inl IndexError"
| "py_getitem0 (JStr (c # cs)) = Inr (JStr [c])"
| "py_getitem0 (JObj kvs) = Inl KeyError"
| "py_getitem0 _ = Inl TypeError"

text \<open>\<open>p in s\<close> on two strings: \<open>p\<close> occurs in \<open>s\<close> as a contiguous run.\<close>

fun str_contains :: "string \<Rightarrow> string \<Rightarrow> bool" where
  "str_contains p [] = (p = [])"
| "str_contains p (c # cs) = (prefix p (c # cs) \<or> str_contains p cs)"

text \<open>\<open>k in v\<close> for a string \<open>k\<close>: a key of a dict, an element of a list, a
  substring of a string.\<close>

fun py_in :: "string \<Rightarrow> 'n json \<Rightarrow> pyerror + bool" where
  "py_in k (JObj kvs) = Inr (k \<in> set (map fst kvs))"
| "py_in k (JArr xs) = Inr (JStr k \<in> set xs)"
| "py_in k (JStr s) = Inr (str_contains k s)"
| "py_in k _ = Inl TypeError"

text \<open>\<open>for x in v\<close>: the elements of a list, the characters of a string, the keys of a
  dict.\<close>

fun py_iter :: "'n json \<Rightarrow> pyerror + 'n json list" where
  "py_iter (JArr xs) = Inr xs"
| "py_iter (JStr s) = Inr (map (\<lambda>c. JStr [c]) s)"
| "py_iter (JObj kvs) = Inr (map (\<lambda>kv. JStr (fst kv)) kvs)"
| "py_iter _ = Inl TypeError"

text \<open>\<open>if v:\<close>. Whether a number is zero is the number type's business.\<close>

fun py_truthy :: "('n \<Rightarrow> bool) \<Rightarrow> 'n json \<Rightarrow> bool" where
  "py_truthy nonzero JNull = False"
| "py_truthy nonzero (JBool b) = b"
| "py_truthy nonzero (JNum n) = nonzero n"
| "py_truthy nonzero (JStr s) = (s \<noteq> [])"
| "py_truthy nonzero (JArr xs) = (xs \<noteq> [])"
| "py_truthy nonzero (JObj kvs) = (kvs \<noteq> [])"

text \<open>\<open>s.split(c)\<close> for a one-character separator: every occurrence of \<open>c\<close> ends a
  piece, so \<open>n\<close> separators give \<open>n + 1\<close> pieces, some of them possibly empty.\<close>

fun split_on :: "char \<Rightarrow> string \<Rightarrow> string list" where
  "split_on c [] = [[]]"
| "split_on c (x # xs) =
     (if x = c then [] # split_on c xs
      else (case split_on c xs of [] \<Rightarrow> [[x]] | w # ws \<Rightarrow> (x # w) # ws))"

text \<open>\<open>v.split(" ")\<close> on a decoded value: only a string has the method.\<close>

fun py_split :: "'n json \<Rightarrow> pyerror + string list" where
  "py_split (JStr s) = Inr (split_on CHR '' '' s)"
| "py_split _ = Inl AttributeError"

text \<open>\<open>xs[i]\<close> on a Python list, for \<open>i \<ge> 0\<close>.\<close>

definition py_nth :: "'a list \<Rightarrow> nat \<Rightarrow> pyerror + 'a" where
  "py_nth xs i = (if i < length xs then Inr (xs ! i) else Inl IndexError)"

text \<open>A comprehension or loop body that may raise, run over a list: the first exception
  ends it.\<close>

fun map_err :: "('a \<Rightarrow> pyerror + 'b) \<Rightarrow> 'a list \<Rightarrow> pyerror + 'b list" where
  "map_err f [] = Inr []"
| "map_err f (x # xs) =
     (case f x of Inl e \<Rightarrow> Inl e
      | Inr y \<Rightarrow> (case map_err f xs of Inl e \<Rightarrow> Inl e | Inr ys \<Rightarrow> Inr (y # ys)))"

section \<open>Obtaining the concept ID\<close>

definition cmrurl :: string where
  "cmrurl = ''https://cmr.earthdata.nasa.gov/search/''"

definition doisearch :: "string \<Rightarrow> string" where
  "doisearch doi = cmrurl @ ''collections.json?doi='' @ doi"

text \<open>
  \<^verbatim>\<open>concept_id = requests.get(doisearch).json()['feed']['entry'][0]['id']\<close>

  \<open>http_get\<close> is \<open>requests.get(url).json()\<close>. The result pairs the URLs fetched with the
  value bound to \<open>concept_id\<close>, or the exception raised.
\<close>

definition resolve_concept_id ::
  "(string \<Rightarrow> pyerror + 'n json) \<Rightarrow> string \<Rightarrow> string list \<times> (pyerror + 'n json)" where
  "resolve_concept_id http_get doi =
     ([doisearch doi],
      ebind (http_get (doisearch doi)) (\<lambda>body.
      ebind (py_getitem body ''feed'') (\<lambda>feed.
      ebind (py_getitem feed ''entry'') (\<lambda>entry.
      ebind (py_getitem0 entry) (\<lambda>first.
      py_getitem first ''id'')))))"

section \<open>Searching granules: one entry of a result page\<close>

text \<open>
  The geometry objects are the objects of the geometry library as the notebook makes
  them: a \<open>Polygon\<close> with the list of \<open>[lon, lat]\<close> pairs it was made from, a
  \<open>MultiPolygon\<close> with its list of polygons. \<open>EmptyStr\<close> is the initial value \<open>''\<close> of
  \<open>granule_poly\<close>. The coordinate type \<open>'f\<close> is whatever \<open>float\<close> returns.
\<close>

datatype 'f polygon = Polygon "('f \<times> 'f) list"

datatype 'f geometry = EmptyStr | MultiPolygon "'f polygon list"

text \<open>
  The call \<open>Polygon(shell)\<close>. A ring needs three points: the library raises
  \<open>ValueError\<close> on a shell of one or two points, makes the empty polygon from no point,
  and closes a ring that is open by itself (the object is kept here with the points
  it was given).
\<close>

definition new_Polygon :: "('f \<times> 'f) list \<Rightarrow> pyerror + 'f polygon" where
  "new_Polygon shell =
     (if 1 \<le> length shell \<and> length shell \<le> 2 then Inl ValueError else Inr (Polygon shell))"

text \<open>\<open>zip(i, i)\<close> over one iterator \<open>i\<close>: consecutive pairs; a last element without
  a partner is consumed and dropped.\<close>

fun zip_self :: "'a list \<Rightarrow> ('a \<times> 'a) list" where
  "zip_self (a # b # xs) = (a, b) # zip_self xs"
| "zip_self _ = []"

text \<open>
  \<^verbatim>\<open>[float(p.split(" ")[1]), float(p.split(" ")[0])]\<close> for one element \<open>p\<close> of
  \<open>ltln\<close>; \<open>float\<close> raises \<open>ValueError\<close> on text that is no number.
\<close>

definition lon_lat :: "(string \<Rightarrow> pyerror + 'f) \<Rightarrow> string \<Rightarrow> pyerror + ('f \<times> 'f)" where
  "lon_lat float p =
     ebind (py_nth (split_on CHR '' '' p) 1) (\<lambda>s1.
     ebind (float s1) (\<lambda>lon.
     ebind (py_nth (split_on CHR '' '' p) 0) (\<lambda>s0.
     ebind (float s0) (\<lambda>lat.
     Inr (lon, lat)))))"

text \<open>
  The body of \<open>for poly in polygons\<close>:
  \<^verbatim>\<open>
  i=iter(poly[0].split (" "))
  ltln = list(map(" ".join,zip(i,i)))
  multipolygons.append(Polygon([[float(p.split(" ")[1]), float(p.split(" ")[0])] for p in ltln]))
  \<close>
\<close>

definition polygon_of :: "(string \<Rightarrow> pyerror + 'f) \<Rightarrow> 'n json \<Rightarrow> pyerror + 'f polygon" where
  "polygon_of float poly =
     ebind (py_getitem0 poly) (\<lambda>ring.
     ebind (py_split ring) (\<lambda>i.
     let ltln = map (\<lambda>(a, b). a @ '' '' @ b) (zip_self i) in
     ebind (map_err (lon_lat float) ltln) (\<lambda>coords.
     new_Polygon coords)))"

text \<open>
  \<^verbatim>\<open>
  granule_poly = ''
  if 'polygons' in g:
      polygons= g['polygons']
      multipolygons = []
      for poly in polygons:
          ...
      granule_poly = MultiPolygon(multipolygons)
  \<close>
\<close>

definition read_polygons :: "(string \<Rightarrow> pyerror + 'f) \<Rightarrow> 'n json \<Rightarrow> pyerror + 'f geometry" where
  "read_polygons float g =
     ebind (py_in ''polygons'' g) (\<lambda>present.
     if present then
       ebind (py_getitem g ''polygons'') (\<lambda>polygons.
       ebind (py_iter polygons) (\<lambda>polys.
       ebind (map_err (polygon_of float) polys) (\<lambda>multipolygons.
       Inr (MultiPolygon multipolygons))))
     else Inr EmptyStr)"

text \<open>
  The condition of the link comprehension, with Python's short-circuit \<open>and\<close>:
  \<^verbatim>\<open>'https' in x['href'] and '.nc' in x['href'] and '.dmrpp' not in x['href']\<close>
\<close>

definition keep_link :: "'n json \<Rightarrow> pyerror + bool" where
  "keep_link x =
     ebind (py_getitem x ''href'') (\<lambda>h1.
     ebind (py_in ''https'' h1) (\<lambda>c1.
     if \<not> c1 then Inr False else
     ebind (py_getitem x ''href'') (\<lambda>h2.
     ebind (py_in ''.nc'' h2) (\<lambda>c2.
     if \<not> c2 then Inr False else
     ebind (py_getitem x ''href'') (\<lambda>h3.
     ebind (py_in ''.dmrpp'' h3) (\<lambda>c3.
     Inr (\<not> c3)))))))"

text \<open>\<^verbatim>\<open>[x['href'] for x in g['links'] if ...]\<close> over the elements of \<open>g['links']\<close>.\<close>

fun hrefs_kept :: "'n json list \<Rightarrow> pyerror + 'n json list" where
  "hrefs_kept [] = Inr []"
| "hrefs_kept (x # xs) =
     ebind (keep_link x) (\<lambda>keep.
     if keep then
       ebind (py_getitem x ''href'') (\<lambda>h.
       ebind (hrefs_kept xs) (\<lambda>hs. Inr (h # hs)))
     else hrefs_kept xs)"

definition read_urls :: "'n json \<Rightarrow> pyerror + 'n json list" where
  "read_urls g =
     ebind (py_getitem g ''links'') (\<lambda>links.
     ebind (py_iter links) hrefs_kept)"

text \<open>
  A row of \<open>granule_arr\<close> is the three-element list
  \<open>[granule_urls, cloud_cover, granule_poly]\<close>, here a triple.
\<close>

type_synonym ('n, 'f) granule_row = "'n json list \<times> 'n json \<times> 'f geometry"

text \<open>The body of \<open>for g in granules\<close> up to the row that is appended (point and
  bounding-box search).\<close>

definition parse_granule ::
  "(string \<Rightarrow> pyerror + 'f) \<Rightarrow> 'n json \<Rightarrow> pyerror + ('n, 'f) granule_row" where
  "parse_granule float g =
     ebind (py_getitem g ''cloud_cover'') (\<lambda>cloud_cover.
     ebind (read_polygons float g) (\<lambda>granule_poly.
     ebind (read_urls g) (\<lambda>granule_urls.
     Inr (granule_urls, cloud_cover, granule_poly))))"

text \<open>The polygon search reads \<open>g['title']\<close> first (and does not use it).\<close>

definition parse_granule_titled ::
  "(string \<Rightarrow> pyerror + 'f) \<Rightarrow> 'n json \<Rightarrow> pyerror + ('n, 'f) granule_row" where
  "parse_granule_titled float g =
     ebind (py_getitem g ''title'') (\<lambda>granule_name. parse_granule float g)"

text \<open>
  The vertex list the specification describes for one ring string: with the tokens of
  the string numbered from 0, vertex \<open>k\<close> is (token \<open>2k+1\<close>, token \<open>2k\<close>), that is
  (longitude, latitude), for every complete pair; \<open>num\<close> reads a token as a number.
\<close>

definition swapped_pairs :: "(string \<Rightarrow> 'f) \<Rightarrow> string \<Rightarrow> ('f \<times> 'f) list" where
  "swapped_pairs num s =
     map (\<lambda>k. (num (split_on CHR '' '' s ! (2 * k + 1)), num (split_on CHR '' '' s ! (2 * k))))
       [0..<length (split_on CHR '' '' s) div 2]"


section \<open>Searching granules: the requests and the page loop\<close>

text \<open>
  A call \<open>requests.post(url, data=..., files=...)\<close>. The values of the \<open>data\<close> dict are
  the concept ID (whatever was decoded for it), integers and strings. \<open>files\<close> maps a
  form field to (file name, content, content type) and is empty when the argument is
  not given.
\<close>

datatype 'n param = PJson "'n json" | PInt int | PStr string

record 'n post_call =
  url :: string
  data :: "(string \<times> 'n param) list"
  files :: "(string \<times> string \<times> string \<times> string) list"

definition granulesearch :: string where
  "granulesearch = cmrurl @ ''granules.json''"

definition page_size :: int where
  "page_size = 2000"

definition dt_format :: string where
  "dt_format = ''%Y-%m-%dT%H:%M:%SZ''"

text \<open>
  \<^verbatim>\<open>temporal_str = start_date.strftime(dt_format) + ',' + end_date.strftime(dt_format)\<close>

  \<open>strftime\<close> is the datetime library's; \<open>'d\<close> is its datetime.
\<close>

definition temporal_str :: "('d \<Rightarrow> string \<Rightarrow> string) \<Rightarrow> 'd \<Rightarrow> 'd \<Rightarrow> string" where
  "temporal_str strftime start_date end_date =
     strftime start_date dt_format @ '','' @ strftime end_date dt_format"

text \<open>\<open>sep.join(xs)\<close>.\<close>

fun join :: "string \<Rightarrow> string list \<Rightarrow> string" where
  "join sep [] = []"
| "join sep [x] = x"
| "join sep (x # y # ys) = x @ sep @ join sep (y # ys)"

text \<open>
  \<^verbatim>\<open>point_str = str(lon) +','+ str(lat)\<close> and
  \<^verbatim>\<open>bound_str = ','.join(map(str,bound))\<close>, with \<open>str\<close> on the coordinate type \<open>'r\<close>.
\<close>

definition point_str :: "('r \<Rightarrow> string) \<Rightarrow> 'r \<Rightarrow> 'r \<Rightarrow> string" where
  "point_str str lon lat = str lon @ '','' @ str lat"

definition bound_str :: "('r \<Rightarrow> string) \<Rightarrow> 'r list \<Rightarrow> string" where
  "bound_str str bound = join '','' (map str bound)"

text \<open>The \<open>cmr_param\<close> dict of each of the three searches, in the order it is written.\<close>

definition cmr_param_point :: "'n json \<Rightarrow> int \<Rightarrow> string \<Rightarrow> string \<Rightarrow> (string \<times> 'n param) list" where
  "cmr_param_point concept_id page_num temporal point =
     [(''collection_concept_id'', PJson concept_id),
      (''page_size'', PInt page_size),
      (''page_num'', PInt page_num),
      (''temporal'', PStr temporal),
      (''point'', PStr point)]"

definition cmr_param_bbox :: "'n json \<Rightarrow> int \<Rightarrow> string \<Rightarrow> string \<Rightarrow> (string \<times> 'n param) list" where
  "cmr_param_bbox concept_id page_num temporal bound =
     [(''collection_concept_id'', PJson concept_id),
      (''page_size'', PInt page_size),
      (''page_num'', PInt page_num),
      (''temporal'', PStr temporal),
      (''bounding_box[]'', PStr bound)]"

definition cmr_param_polygon :: "'n json \<Rightarrow> int \<Rightarrow> string \<Rightarrow> (string \<times> 'n param) list" where
  "cmr_param_polygon concept_id page_num temporal =
     [(''collection_concept_id'', PJson concept_id),
      (''page_size'', PInt page_size),
      (''page_num'', PInt page_num),
      (''temporal'', PStr temporal),
      (''simplify-shapefile'', PStr ''true'')]"

text \<open>
  \<^verbatim>\<open>geojson = {"shapefile": ("isla_gaviota.geojson", polygon.geometry.to_json(), "application/geo+json")}\<close>

  The text of the polygon read from the file is the argument.
\<close>

definition geojson :: "string \<Rightarrow> (string \<times> string \<times> string \<times> string) list" where
  "geojson polygon_json =
     [(''shapefile'', (''isla_gaviota.geojson'', polygon_json, ''application/geo+json''))]"

text \<open>
  The state of a search cell: its two variables, and the calls made so far, oldest
  first (kept to speak about the requests; the notebook does not store them).
\<close>

record ('n, 'f) search_state =
  page_num :: int
  granule_arr :: "('n, 'f) granule_row list"
  sent :: "'n post_call list"

text \<open>How a run of the cell stands: the loop left by \<open>break\<close>, an exception, or still
  looping when the fuel of the model ran out.\<close>

datatype 's outcome = Finished 's | Raised pyerror 's | Running 's

fun state_of :: "'s outcome \<Rightarrow> 's" where
  "state_of (Finished s) = s"
| "state_of (Raised e s) = s"
| "state_of (Running s) = s"

text \<open>\<^verbatim>\<open>requests.post(...).json()['feed']['entry']\<close>, where \<open>http_post\<close> is the call
  with the decoding of the body.\<close>

definition fetch_entry ::
  "('n post_call \<Rightarrow> pyerror + 'n json) \<Rightarrow> 'n post_call \<Rightarrow> pyerror + 'n json" where
  "fetch_entry http_post call =
     ebind (http_post call) (\<lambda>body.
     ebind (py_getitem body ''feed'') (\<lambda>feed.
     py_getitem feed ''entry''))"

text \<open>\<open>for g in granules: ... granule_arr.append(...)\<close>: the list is extended in place,
  so the rows appended before an exception stay.\<close>

fun append_granules ::
  "('n json \<Rightarrow> pyerror + 'r) \<Rightarrow> 'n json list \<Rightarrow> 'r list \<Rightarrow> 'r list \<times> pyerror option" where
  "append_granules parse [] arr = (arr, None)"
| "append_granules parse (g # gs) arr =
     (case parse g of
        Inl e \<Rightarrow> (arr, Some e)
      | Inr row \<Rightarrow> append_granules parse gs (arr @ [row]))"

text \<open>
  \<open>while True:\<close> with at most \<open>fuel\<close> iterations. \<open>cmr_call\<close> builds the call from
  \<open>page_num\<close>; \<open>parse\<close> is the body of the inner loop up to the row.
\<close>

fun search_loop ::
  "nat \<Rightarrow> ('n post_call \<Rightarrow> pyerror + 'n json) \<Rightarrow> ('n \<Rightarrow> bool) \<Rightarrow> (int \<Rightarrow> 'n post_call) \<Rightarrow>
   ('n json \<Rightarrow> pyerror + ('n, 'f) granule_row) \<Rightarrow> ('n, 'f) search_state \<Rightarrow>
   ('n, 'f) search_state outcome" where
  "search_loop 0 http_post nonzero cmr_call parse st = Running st"
| "search_loop (Suc fuel) http_post nonzero cmr_call parse st =
     (let call = cmr_call (page_num st);
          st1 = st\<lparr>sent := sent st @ [call]\<rparr>
      in case fetch_entry http_post call of
           Inl e \<Rightarrow> Raised e st1
         | Inr granules \<Rightarrow>
             if py_truthy nonzero granules then
               (case py_iter granules of
                  Inl e \<Rightarrow> Raised e st1
                | Inr gs \<Rightarrow>
                    (case append_granules parse gs (granule_arr st1) of
                       (arr, Some e) \<Rightarrow> Raised e (st1\<lparr>granule_arr := arr\<rparr>)
                     | (arr, None) \<Rightarrow>
                         search_loop fuel http_post nonzero cmr_call parse
                           (st1\<lparr>granule_arr := arr, page_num := page_num st1 + 1\<rparr>)))
             else Finished st1)"

text \<open>\<open>page_num = 1\<close>, \<open>granule_arr = []\<close>, and nothing sent yet.\<close>

definition search_start :: "('n, 'f) search_state" where
  "search_start = \<lparr>page_num = 1, granule_arr = [], sent = []\<rparr>"

text \<open>The three search cells.\<close>

definition cmr_call_point :: "'n json \<Rightarrow> string \<Rightarrow> string \<Rightarrow> int \<Rightarrow> 'n post_call" where
  "cmr_call_point concept_id temporal point n =
     \<lparr>url = granulesearch, data = cmr_param_point concept_id n temporal point, files = []\<rparr>"

definition cmr_call_bbox :: "'n json \<Rightarrow> string \<Rightarrow> string \<Rightarrow> int \<Rightarrow> 'n post_call" where
  "cmr_call_bbox concept_id temporal bound n =
     \<lparr>url = granulesearch, data = cmr_param_bbox concept_id n temporal bound, files = []\<rparr>"

definition cmr_call_polygon :: "'n json \<Rightarrow> string \<Rightarrow> string \<Rightarrow> int \<Rightarrow> 'n post_call" where
  "cmr_call_polygon concept_id temporal polygon_json n =
     \<lparr>url = granulesearch, data = cmr_param_polygon concept_id n temporal,
      files = geojson polygon_json\<rparr>"

definition search_point ::
  "nat \<Rightarrow> ('n post_call \<Rightarrow> pyerror + 'n json) \<Rightarrow> ('n \<Rightarrow> bool) \<Rightarrow> (string \<Rightarrow> pyerror + 'f) \<Rightarrow>
   'n json \<Rightarrow> string \<Rightarrow> string \<Rightarrow> ('n, 'f) search_state outcome" where
  "search_point fuel http_post nonzero float concept_id temporal point =
     search_loop fuel http_post nonzero (cmr_call_point concept_id temporal point)
       (parse_granule float) search_start"

definition search_bbox ::
  "nat \<Rightarrow> ('n post_call \<Rightarrow> pyerror + 'n json) \<Rightarrow> ('n \<Rightarrow> bool) \<Rightarrow> (string \<Rightarrow> pyerror + 'f) \<Rightarrow>
   'n json \<Rightarrow> string \<Rightarrow> string \<Rightarrow> ('n, 'f) search_state outcome" where
  "search_bbox fuel http_post nonzero float concept_id temporal bound =
     search_loop fuel http_post nonzero (cmr_call_bbox concept_id temporal bound)
       (parse_granule float) search_start"

definition search_polygon ::
  "nat \<Rightarrow> ('n post_call \<Rightarrow> pyerror + 'n json) \<Rightarrow> ('n \<Rightarrow> bool) \<Rightarrow> (string \<Rightarrow> pyerror + 'f) \<Rightarrow>
   'n json \<Rightarrow> string \<Rightarrow> string \<Rightarrow> ('n, 'f) search_state outcome" where
  "search_polygon fuel http_post nonzero float concept_id temporal polygon_json =
     search_loop fuel http_post nonzero (cmr_call_polygon concept_id temporal polygon_json)
       (parse_granule_titled float) search_start"

section \<open>The table of results and the text file\<close>

text \<open>
  A data frame is its rows in order, each with its index label. The columns are the
  positions of the tuple: \<open>(asset_url, cloud_cover, granule_poly)\<close> as the frame is
  built, with \<open>asset_name\<close> put in front later. A cell that pandas shows as \<open>NaN\<close> is
  \<open>None\<close>.

  \<^verbatim>\<open>cmr_results_df = pd.DataFrame(granule_arr, columns=["asset_url", "cloud_cover", "granule_poly"])\<close>
\<close>

definition DataFrame :: "'r list \<Rightarrow> (nat \<times> 'r) list" where
  "DataFrame rows = zip [0..<length rows] rows"

text \<open>\<^verbatim>\<open>cmr_results_df = cmr_results_df[cmr_results_df['granule_poly'] != '']\<close>\<close>

definition drop_empty_geometry ::
  "(nat \<times> ('n, 'f) granule_row) list \<Rightarrow> (nat \<times> ('n, 'f) granule_row) list" where
  "drop_empty_geometry df =
     filter (\<lambda>(i, asset_url, cloud_cover, granule_poly). granule_poly \<noteq> EmptyStr) df"

text \<open>
  \<^verbatim>\<open>cmr_results_df = cmr_results_df.explode('asset_url')\<close>

  One row per element of the list in \<open>asset_url\<close>, with the label and the other cells
  repeated; an empty list leaves one row with \<open>NaN\<close>.
\<close>

definition explode ::
  "(nat \<times> ('n, 'f) granule_row) list \<Rightarrow> (nat \<times> 'n json option \<times> 'n json \<times> 'f geometry) list" where
  "explode df =
     concat (map (\<lambda>(i, asset_url, cloud_cover, granule_poly).
       if asset_url = [] then [(i, None, cloud_cover, granule_poly)]
       else map (\<lambda>u. (i, Some u, cloud_cover, granule_poly)) asset_url) df)"

text \<open>
  \<^verbatim>\<open>cmr_results_df.asset_url.str.split('/',n=-1).str.get(-1)\<close> on one cell: the string
  methods give \<open>NaN\<close> on a cell that is not a string.
\<close>

fun str_split_get_last :: "'n json option \<Rightarrow> string option" where
  "str_split_get_last (Some (JStr u)) = Some (last (split_on CHR ''/'' u))"
| "str_split_get_last _ = None"

text \<open>\<^verbatim>\<open>cmr_results_df.insert(0,'asset_name', ...)\<close>\<close>

definition insert_asset_name ::
  "(nat \<times> 'n json option \<times> 'n json \<times> 'f geometry) list \<Rightarrow>
   (nat \<times> string option \<times> 'n json option \<times> 'n json \<times> 'f geometry) list" where
  "insert_asset_name df =
     map (\<lambda>(i, asset_url, cloud_cover, granule_poly).
            (i, str_split_get_last asset_url, asset_url, cloud_cover, granule_poly)) df"

text \<open>The cell that creates the data frame from \<open>granule_arr\<close>, here \<open>arr\<close>.\<close>

definition results_table ::
  "('n, 'f) granule_row list \<Rightarrow>
   (nat \<times> string option \<times> 'n json option \<times> 'n json \<times> 'f geometry) list" where
  "results_table arr =
     insert_asset_name (explode (drop_empty_geometry (DataFrame arr)))"

text \<open>
  \<open>asset_name.str.contains(pat)\<close> on one cell (\<open>NaN\<close> stays \<open>NaN\<close>; the two patterns of
  the notebook have no regular-expression character, so the match is a substring
  test), and \<open>|\<close> of two such results, where \<open>NaN\<close> counts as false.
\<close>

definition str_contains_cell :: "string \<Rightarrow> string option \<Rightarrow> bool option" where
  "str_contains_cell pat c = map_option (str_contains pat) c"

definition or_mask :: "bool option \<Rightarrow> bool option \<Rightarrow> bool" where
  "or_mask a b = (a = Some True \<or> b = Some True)"

text \<open>
  \<^verbatim>\<open>cmr_results_df = cmr_results_df[cmr_results_df.asset_name.str.contains('_RFL_') | cmr_results_df.asset_name.str.contains('MASK')]\<close>
\<close>

definition keep_rfl_and_mask ::
  "(nat \<times> string option \<times> 'c) list \<Rightarrow> (nat \<times> string option \<times> 'c) list" where
  "keep_rfl_and_mask df =
     filter (\<lambda>(i, asset_name, rest).
       or_mask (str_contains_cell ''_RFL_'' asset_name) (str_contains_cell ''MASK'' asset_name)) df"

text \<open>\<open>drop_duplicates(subset=[...])\<close>: a row is dropped when an earlier row has the same
  value in the column; \<open>seen\<close> are the values met so far.\<close>

fun drop_seen :: "('a \<Rightarrow> 'k) \<Rightarrow> 'k list \<Rightarrow> 'a list \<Rightarrow> 'a list" where
  "drop_seen key seen [] = []"
| "drop_seen key seen (x # xs) =
     (if key x \<in> set seen then drop_seen key seen xs
      else x # drop_seen key (key x # seen) xs)"

definition drop_duplicates :: "('a \<Rightarrow> 'k) \<Rightarrow> 'a list \<Rightarrow> 'a list" where
  "drop_duplicates key df = drop_seen key [] df"

text \<open>
  The CSV writer as \<open>to_csv\<close> sets it up: fields separated by commas, the double
  quote as quote character, minimal quoting. A field is put between quotes, its own
  quotes doubled, when it holds a comma, a quote or a character of the line terminator;
  a row whose only field is empty is written as two quotes; the line terminator ends
  every row. \<open>lineterminator\<close> is \<open>os.linesep\<close>. Newer versions of the writer also quote
  a field that holds a carriage return or a line feed when the line terminator has
  none: \<open>quote_breaks\<close> says whether the writer is one of them.
\<close>

definition needs_quotes :: "string \<Rightarrow> bool \<Rightarrow> string \<Rightarrow> bool" where
  "needs_quotes lineterminator quote_breaks s =
     (\<exists>c \<in> set s. c = CHR '','' \<or> c = CHR 0x22 \<or> c \<in> set lineterminator \<or>
        (quote_breaks \<and> (c = CHR 0x0D \<or> c = CHR 0x0A)))"

definition csv_field :: "string \<Rightarrow> bool \<Rightarrow> string \<Rightarrow> string" where
  "csv_field lineterminator quote_breaks s =
     (if needs_quotes lineterminator quote_breaks s
      then [CHR 0x22] @ concat (map (\<lambda>c. if c = CHR 0x22 then [c, c] else [c]) s) @ [CHR 0x22]
      else s)"

definition writerow :: "string \<Rightarrow> bool \<Rightarrow> string list \<Rightarrow> string" where
  "writerow lineterminator quote_breaks row =
     (let r = join '','' (map (csv_field lineterminator quote_breaks) row)
      in if row \<noteq> [] \<and> r = [] then [CHR 0x22, CHR 0x22] else r) @ lineterminator"

text \<open>
  The text of a cell of the \<open>asset_url\<close> column: nothing for a missing value (\<open>NaN\<close>,
  \<open>None\<close>), a string as it is, and \<open>str\<close> of any other object.
\<close>

fun cell_text :: "('n json \<Rightarrow> string) \<Rightarrow> 'n json option \<Rightarrow> string" where
  "cell_text str None = []"
| "cell_text str (Some JNull) = []"
| "cell_text str (Some (JStr u)) = u"
| "cell_text str (Some v) = str v"

text \<open>
  \<open>to_csv\<close> with \<open>columns = ['asset_url']\<close>, \<open>index=False\<close> and \<open>header = False\<close>: no
  header row, and one row per row of the table with the \<open>asset_url\<close> cell as its only
  field. The result is what is written for each row, in order.
\<close>

definition to_csv_asset_url ::
  "string \<Rightarrow> bool \<Rightarrow> ('n json \<Rightarrow> string) \<Rightarrow>
   (nat \<times> string option \<times> 'n json option \<times> 'c) list \<Rightarrow> string list" where
  "to_csv_asset_url lineterminator quote_breaks str df =
     map (\<lambda>(i, asset_name, asset_url, rest).
            writerow lineterminator quote_breaks [cell_text str asset_url]) df"

text \<open>
  The variables and the file of the last cells; the file is its text.
  \<^verbatim>\<open>
  cmr_results_dfs = cmr_results_df[:-1].drop_duplicates(subset=['asset_url']) # Remove any duplicates
  cmr_results_df.to_csv('../data/emit_asset_urls.txt', columns = ['asset_url'], index=False, header = False)
  \<close>
\<close>

record ('n, 'f) save_state =
  cmr_results_df :: "(nat \<times> string option \<times> 'n json option \<times> 'n json \<times> 'f geometry) list"
  cmr_results_dfs :: "(nat \<times> string option \<times> 'n json option \<times> 'n json \<times> 'f geometry) list option"
  emit_asset_urls_txt :: "string option"

definition save_asset_urls ::
  "string \<Rightarrow> bool \<Rightarrow> ('n json \<Rightarrow> string) \<Rightarrow> ('n, 'f) save_state \<Rightarrow> ('n, 'f) save_state" where
  "save_asset_urls lineterminator quote_breaks str st =
     st\<lparr>cmr_results_dfs :=
          Some (drop_duplicates (\<lambda>(i, asset_name, asset_url, rest). asset_url)
                  (butlast (cmr_results_df st))),
        emit_asset_urls_txt :=
          Some (concat (to_csv_asset_url lineterminator quote_breaks str (cmr_results_df st)))\<rparr>"

text \<open>From the rows \<open>arr\<close> of a search (its \<open>granule_arr\<close>) to the file: the three cells
  in order.\<close>

definition write_asset_urls ::
  "string \<Rightarrow> bool \<Rightarrow> ('n json \<Rightarrow> string) \<Rightarrow> ('n, 'f) granule_row list \<Rightarrow>
   ('n, 'f) save_state" where
  "write_asset_urls lineterminator quote_breaks str arr =
     save_asset_urls lineterminator quote_breaks str
       \<lparr>cmr_results_df = keep_rfl_and_mask (results_table arr),
        cmr_results_dfs = None, emit_asset_urls_txt = None\<rparr>"

text \<open>The filter on the asset name as the specification words it: the name is there
  and contains \<open>_RFL_\<close> or \<open>MASK\<close>.\<close>

definition name_has_rfl_or_mask :: "string option \<Rightarrow> bool" where
  "name_has_rfl_or_mask n =
     (case n of None \<Rightarrow> False | Some s \<Rightarrow> str_contains ''_RFL_'' s \<or> str_contains ''MASK'' s)"

section \<open>The reflectance tutorial: arrays\<close>

text \<open>
  An element of a floating-point array: not-a-number, an infinity, or a finite value,
  which is a real number. Rounding lives in the library functions, which the model takes
  as arguments; the comparisons and selections below are exact on these values.
\<close>

datatype npfloat = NaN | NegInf | PosInf | Fin real

text \<open>Element-wise \<open>==\<close>: not-a-number equals nothing, itself included.\<close>

fun np_eq :: "npfloat \<Rightarrow> npfloat \<Rightarrow> bool" where
  "np_eq NaN y = False"
| "np_eq x NaN = False"
| "np_eq x y = (x = y)"

text \<open>An array: its shape and its elements in row-major order.\<close>

record ndarray =
  shape :: "nat list"
  elems :: "npfloat list"

text \<open>
  The dataset as far as the cells below read it: the \<open>reflectance\<close> variable, whose
  last axis is \<open>bands\<close>, and the labels of the \<open>bands\<close> coordinate when the dimension has
  one. The datasets the notebook makes have none (the wavelengths are a coordinate of
  their own on that dimension): \<open>bands\<close> is \<open>None\<close> for them.
\<close>

record dataset =
  bands :: "int list option"
  reflectance :: ndarray

text \<open>
  \<^verbatim>\<open>ds['reflectance'].data[ds['reflectance'].data == -0.01] = np.nan\<close>

  (and the same on \<open>ds_geo\<close>). \<open>as_element\<close> is the conversion of the literal to the
  element type of the array.
\<close>

definition mask_fill_value :: "(real \<Rightarrow> real) \<Rightarrow> dataset \<Rightarrow> dataset" where
  "mask_fill_value as_element ds =
     ds\<lparr>reflectance := (reflectance ds)
          \<lparr>elems := map (\<lambda>x. if np_eq x (Fin (as_element (- (1 / 100)))) then NaN else x)
                      (elems (reflectance ds))\<rparr>\<rparr>"

text \<open>
  The numeric library, as far as \<open>gamma_adjust\<close> calls it: the value of a decimal
  literal, the logarithm of a positive number, division by a non-zero number,
  \<open>np.power\<close> and \<open>np.nanmean\<close>, and the largest finite value (for \<open>nan_to_num\<close>).
\<close>

record numerics =
  literal :: "real \<Rightarrow> real"
  log_pos :: "real \<Rightarrow> npfloat"
  truediv :: "npfloat \<Rightarrow> npfloat \<Rightarrow> npfloat"
  np_power :: "npfloat \<Rightarrow> npfloat \<Rightarrow> npfloat"
  np_nanmean :: "npfloat list \<Rightarrow> npfloat"
  finfo_max :: real

text \<open>\<open>math.log(x)\<close>: a domain error unless \<open>x\<close> is positive or not a number.\<close>

fun math_log :: "numerics \<Rightarrow> npfloat \<Rightarrow> pyerror + npfloat" where
  "math_log N NaN = Inr NaN"
| "math_log N PosInf = Inr PosInf"
| "math_log N NegInf = Inl ValueError"
| "math_log N (Fin r) = (if r \<le> 0 then Inl ValueError else Inr (log_pos N r))"

text \<open>\<open>a / b\<close> on two Python floats.\<close>

definition py_truediv :: "numerics \<Rightarrow> npfloat \<Rightarrow> npfloat \<Rightarrow> pyerror + npfloat" where
  "py_truediv N a b = (if np_eq b (Fin 0) then Inl ZeroDivisionError else Inr (truediv N a b))"

text \<open>\<open>.clip(lo, hi)\<close> on one element: the smaller of \<open>hi\<close> and the larger of the
  element and \<open>lo\<close>; not-a-number stays.\<close>

fun np_clip :: "real \<Rightarrow> real \<Rightarrow> npfloat \<Rightarrow> npfloat" where
  "np_clip lo hi NaN = NaN"
| "np_clip lo hi NegInf = Fin (min lo hi)"
| "np_clip lo hi PosInf = Fin hi"
| "np_clip lo hi (Fin r) = Fin (min (max r lo) hi)"

text \<open>\<open>np.nan_to_num(x, nan=v)\<close> on one element: the infinities become the largest and
  the smallest finite value.\<close>

fun nan_to_num :: "numerics \<Rightarrow> real \<Rightarrow> npfloat \<Rightarrow> npfloat" where
  "nan_to_num N v NaN = Fin v"
| "nan_to_num N v PosInf = Fin (finfo_max N)"
| "nan_to_num N v NegInf = Fin (- finfo_max N)"
| "nan_to_num N v (Fin r) = Fin r"

text \<open>The size of the last axis, and the array at the positions \<open>ks\<close> of the last
  axis, which stays an axis of the result.\<close>

definition nbands :: "ndarray \<Rightarrow> nat" where
  "nbands r = (if shape r = [] then 0 else last (shape r))"

definition take_bands :: "ndarray \<Rightarrow> nat list \<Rightarrow> ndarray" where
  "take_bands r ks =
     \<lparr>shape = butlast (shape r) @ [length ks],
      elems = concat (map (\<lambda>j. map (\<lambda>k. elems r ! (j * nbands r + k)) ks)
                        [0..<length (elems r) div nbands r])\<rparr>"

text \<open>The array at one position \<open>k\<close> of the last axis, which is dropped.\<close>

definition take_band :: "ndarray \<Rightarrow> nat \<Rightarrow> ndarray" where
  "take_band r k =
     \<lparr>shape = butlast (shape r),
      elems = map (\<lambda>j. elems r ! (j * nbands r + k)) [0..<length (elems r) div nbands r]\<rparr>"

text \<open>Selection by position, as \<open>isel(bands=k)\<close> does it: a negative position counts
  from the end, and a position outside the axis is an \<open>IndexError\<close>.\<close>

definition isel_bands :: "ndarray \<Rightarrow> int \<Rightarrow> pyerror + ndarray" where
  "isel_bands r k =
     (if 0 \<le> k \<and> k < int (nbands r) then Inr (take_band r (nat k))
      else if - int (nbands r) \<le> k \<and> k < 0 then Inr (take_band r (nat (k + int (nbands r))))
      else Inl IndexError)"

text \<open>
  \<^verbatim>\<open>ds['reflectance'].sel(bands=band).data\<close>. On a dimension without coordinate the
  selection is by position. With a coordinate it is by label: \<open>KeyError\<close> when no
  position has the label, the array at the position that has it, and with a label that
  stands at several positions the array at all of them.
\<close>

definition sel_bands :: "dataset \<Rightarrow> int \<Rightarrow> pyerror + ndarray" where
  "sel_bands ds band =
     (case bands ds of
        None \<Rightarrow> isel_bands (reflectance ds) band
      | Some labels \<Rightarrow>
          (case filter (\<lambda>k. labels ! k = band) [0..<length labels] of
             [] \<Rightarrow> Inl KeyError
           | [k] \<Rightarrow> Inr (take_band (reflectance ds) k)
           | ks \<Rightarrow> Inr (take_bands (reflectance ds) ks)))"

text \<open>
  \<^verbatim>\<open>
  def gamma_adjust(ds,band):
      array = ds['reflectance'].sel(bands=band).data
      gamma = math.log(0.2)/math.log(np.nanmean(array))
      scaled = np.power(array,gamma).clip(0,1)
      scaled = np.nan_to_num(scaled, nan = 1)
      return scaled
  \<close>
\<close>

definition gamma_adjust :: "numerics \<Rightarrow> dataset \<Rightarrow> int \<Rightarrow> pyerror + ndarray" where
  "gamma_adjust N ds band =
     ebind (sel_bands ds band) (\<lambda>array.
     ebind (math_log N (Fin (literal N (2 / 10)))) (\<lambda>log_02.
     ebind (math_log N (np_nanmean N (elems array))) (\<lambda>log_mean.
     ebind (py_truediv N log_02 log_mean) (\<lambda>gamma.
     let scaled = array\<lparr>elems := map (\<lambda>x. np_clip 0 1 (np_power N x gamma)) (elems array)\<rparr>;
         scaled = scaled\<lparr>elems := map (nan_to_num N 1) (elems scaled)\<rparr>
     in Inr scaled))))"

section \<open>The reflectance tutorial: names bound, read and deleted\<close>

text \<open>
  The cells of the tutorial as statements over the notebook's global names. A statement
  is what it binds, its source text, and the global names it reads when it runs (for a
  call of a function defined in the notebook, the names the function's body reads as
  well; built-in names are not listed, they cannot be deleted). \<open>Update\<close> is an
  assignment into the object a name is bound to. The source text is written without its
  quotation marks, and long argument lists are cut to \<open>...\<close>.
\<close>

datatype stmt =
  Import string string
  | Def string string
  | Assign string string "string list"
  | Update string string "string list"
  | Expr string "string list"
  | Del string

text \<open>
  A value is known by how it was computed: the text of the expression and the values of
  the names it read. Two runs compute the same value when these agree.
\<close>

datatype pyval = PyVal string "pyval list"

record nb_state =
  globals :: "string \<Rightarrow> pyval option"
  computed :: "pyval list"

text \<open>Reading a name that is not bound raises \<open>NameError\<close>.\<close>

definition read_names :: "(string \<Rightarrow> pyval option) \<Rightarrow> string list \<Rightarrow> pyerror + pyval list" where
  "read_names g names =
     map_err (\<lambda>n. case g n of None \<Rightarrow> Inl NameError | Some v \<Rightarrow> Inr v) names"

fun exec :: "stmt \<Rightarrow> nb_state \<Rightarrow> pyerror + nb_state" where
  "exec (Import x src) s = Inr (s\<lparr>globals := (globals s)(x \<mapsto> PyVal src [])\<rparr>)"
| "exec (Def f src) s = Inr (s\<lparr>globals := (globals s)(f \<mapsto> PyVal src [])\<rparr>)"
| "exec (Assign x src names) s =
     ebind (read_names (globals s) names) (\<lambda>vs.
     Inr (s\<lparr>globals := (globals s)(x \<mapsto> PyVal src vs), computed := computed s @ [PyVal src vs]\<rparr>))"
| "exec (Update x src names) s =
     ebind (read_names (globals s) (x # names)) (\<lambda>vs.
     Inr (s\<lparr>globals := (globals s)(x \<mapsto> PyVal src vs), computed := computed s @ [PyVal src vs]\<rparr>))"
| "exec (Expr src names) s =
     ebind (read_names (globals s) names) (\<lambda>vs.
     Inr (s\<lparr>computed := computed s @ [PyVal src vs]\<rparr>))"
| "exec (Del x) s =
     (case globals s x of
        None \<Rightarrow> Inl NameError
      | Some v \<Rightarrow> Inr (s\<lparr>globals := (globals s)(x := None)\<rparr>))"

fun run :: "stmt list \<Rightarrow> nb_state \<Rightarrow> pyerror + nb_state" where
  "run [] s = Inr s"
| "run (c # cs) s = ebind (exec c s) (run cs)"

definition fresh_kernel :: nb_state where
  "fresh_kernel = \<lparr>globals = (\<lambda>n. None), computed = []\<rparr>"

fun is_del :: "stmt \<Rightarrow> bool" where
  "is_del (Del x) = True"
| "is_del _ = False"

text \<open>The notebook with its \<open>del\<close> statements taken out.\<close>

definition without_del :: "stmt list \<Rightarrow> stmt list" where
  "without_del cs = filter (\<lambda>c. \<not> is_del c) cs"

text \<open>Whether a value was computed from another.\<close>

fun computed_from :: "pyval \<Rightarrow> pyval \<Rightarrow> bool" where
  "computed_from (PyVal src vs) w = (w \<in> set vs \<or> (\<exists>v \<in> set vs. computed_from v w))"

text \<open>The code cells up to and including the cell that loads \<open>ds_geo\<close>, and the rest.\<close>

definition cells_1_to_9 :: "stmt list" where
  "cells_1_to_9 =
     [Import ''gdal'' ''from osgeo import gdal'',
      Import ''np'' ''import numpy as np'',
      Import ''math'' ''import math'',
      Import ''rio'' ''import rasterio as rio'',
      Import ''xr'' ''import xarray as xr'',
      Import ''hv'' ''import holoviews as hv'',
      Import ''hvplot'' ''import hvplot.xarray'',
      Import ''nc'' ''import netCDF4 as nc'',
      Assign ''fp'' ''../data/EMIT_L2A_RFL_001_20220903T163129_2224611_012.nc'' [],
      Assign ''ds'' ''nc.Dataset(fp)'' [''nc'', ''fp''],
      Expr ''ds'' [''ds''],
      Expr ''ds.groups.keys()'' [''ds''],
      Assign ''refl'' ''xr.open_dataset(fp)'' [''xr'', ''fp''],
      Expr ''refl'' [''refl''],
      Assign ''wvl'' ''xr.open_dataset(fp,group=sensor_band_parameters)'' [''xr'', ''fp''],
      Expr ''wvl'' [''wvl''],
      Assign ''loc'' ''xr.open_dataset(fp,group=location)'' [''xr'', ''fp''],
      Expr ''loc'' [''loc''],
      Assign ''ds'' ''xr.merge([refl, loc])'' [''xr'', ''refl'', ''loc''],
      Expr ''ds'' [''ds''],
      Assign ''ds'' ''ds.assign_coords({...refl.downtrack.data, refl.crosstrack.data, **wvl.variables})''
        [''ds'', ''refl'', ''wvl''],
      Expr ''ds'' [''ds'']]"

definition cells_10_to_17 :: "stmt list" where
  "cells_10_to_17 =
     [Del ''refl'',
      Del ''wvl'',
      Del ''loc'',
      Assign ''example'' ''ds[reflectance].sel(downtrack=660,crosstrack=370)'' [''ds''],
      Expr ''example.hvplot.line(...)'' [''example''],
      Update ''ds'' ''ds[reflectance].data[ds[reflectance].data == -0.01] = np.nan'' [''np''],
      Expr ''ds[reflectance].sel(downtrack=660,crosstrack=370).hvplot.line(...)'' [''ds''],
      Assign ''b850'' ''np.nanargmin(abs(ds[wavelengths].values-850))'' [''np'', ''ds''],
      Expr ''b850'' [''b850''],
      Expr ''ds.sel(bands=b850).hvplot.image(...)'' [''ds'', ''b850''],
      Assign ''loc'' ''xr.open_dataset(fp,group=location)'' [''xr'', ''fp''],
      Expr ''loc'' [''loc''],
      Del ''loc'',
      Del ''example'']"

definition cells_18_to_29 :: "stmt list" where
  "cells_18_to_29 =
     [Import ''sys'' ''import sys'',
      Expr ''sys.path.append(../modules/)'' [''sys''],
      Import ''emit_xarray'' ''from emit_tools import emit_xarray'',
      Expr ''help(emit_xarray)'' [''emit_xarray''],
      Assign ''ds_geo'' ''emit_xarray(fp, ortho=True)'' [''emit_xarray'', ''fp''],
      Expr ''ds_geo'' [''ds_geo''],
      Assign ''b850'' ''np.nanargmin(abs(ds_geo[wavelengths].values-850))'' [''np'', ''ds_geo''],
      Expr ''ds_geo.isel(bands=b850).hvplot.image(...) + ds.sel(bands=b850).hvplot.image(...)''
        [''ds_geo'', ''b850'', ''ds''],
      Expr ''ds_geo.isel(bands=b850).hvplot.image(...).opts(...)'' [''ds_geo'', ''b850''],
      Update ''ds_geo'' ''ds_geo[reflectance].data[ds_geo[reflectance].data ==-0.01] = np.nan'' [''np''],
      Assign ''point'' ''ds_geo.sel(longitude=-61.833,latitude=-39.710,method=nearest)'' [''ds_geo''],
      Expr ''point.hvplot.line(...).opts(...)'' [''point''],
      Assign ''b650'' ''np.nanargmin(abs(ds_geo[wavelengths].values-650))'' [''np'', ''ds_geo''],
      Assign ''b560'' ''np.nanargmin(abs(ds_geo[wavelengths].values-560))'' [''np'', ''ds_geo''],
      Assign ''b470'' ''np.nanargmin(abs(ds_geo[wavelengths].values-470))'' [''np'', ''ds_geo''],
      Def ''gamma_adjust'' ''def gamma_adjust(ds,band)'',
      Assign ''r'' ''gamma_adjust(ds_geo,b650)'' [''gamma_adjust'', ''ds_geo'', ''b650'', ''math'', ''np''],
      Assign ''g'' ''gamma_adjust(ds_geo,b560)'' [''gamma_adjust'', ''ds_geo'', ''b560'', ''math'', ''np''],
      Assign ''b'' ''gamma_adjust(ds_geo,b470)'' [''gamma_adjust'', ''ds_geo'', ''b470'', ''math'', ''np''],
      Assign ''rgb'' ''np.stack([r,g,b])'' [''np'', ''r'', ''g'', ''b''],
      Assign ''bds'' ''np.array([0,1,2])'' [''np''],
      Assign ''x'' ''ds_geo[longitude].values'' [''ds_geo''],
      Assign ''y'' ''ds_geo[latitude].values'' [''ds_geo''],
      Assign ''data_vars'' ''{RGB:([bands,latitude,longitude], rgb)}'' [''rgb''],
      Assign ''coords'' ''{bands:([bands],bds), latitude:([latitude],y), longitude:([longitude],x)}''
        [''bds'', ''y'', ''x''],
      Assign ''attrs'' ''ds_geo.attrs'' [''ds_geo''],
      Assign ''ds_rgb'' ''xr.Dataset(data_vars=data_vars, coords=coords, attrs=attrs)''
        [''xr'', ''data_vars'', ''coords'', ''attrs''],
      Update ''ds_rgb'' ''ds_rgb.coords[latitude].attrs = ds_geo[longitude].attrs'' [''ds_geo''],
      Update ''ds_rgb'' ''ds_rgb.coords[longitude].attrs = ds_geo[latitude].attrs'' [''ds_geo''],
      Expr ''ds_rgb'' [''ds_rgb''],
      Assign ''map'' ''ds_rgb.hvplot.rgb(...)'' [''ds_rgb''],
      Assign ''posxy'' ''hv.streams.PointerXY(source=map, x=-61.833, y=-39.710)'' [''hv'', ''map''],
      Assign ''clickxy'' ''hv.streams.Tap(source=map, x=-61.833, y=-39.710)'' [''hv'', ''map''],
      Def ''point_spectra'' ''def point_spectra(x,y)'',
      Def ''click_spectra'' ''def click_spectra(x,y)'',
      Assign ''point_dmap'' ''hv.DynamicMap(point_spectra, streams=[posxy])''
        [''hv'', ''point_spectra'', ''posxy''],
      Assign ''click_dmap'' ''hv.DynamicMap(click_spectra, streams=[clickxy])''
        [''hv'', ''click_spectra'', ''clickxy''],
      Expr ''(map + click_dmap*point_dmap)'' [''map'', ''click_dmap'', ''point_dmap'', ''ds_geo'']]"

definition tutorial :: "stmt list" where
  "tutorial = cells_1_to_9 @ cells_10_to_17 @ cells_18_to_29"

text \<open>The names a list of statements deletes, in order.\<close>

definition deleted :: "stmt list \<Rightarrow> string list" where
  "deleted cs = concat (map (\<lambda>c. case c of Del x \<Rightarrow> [x] | _ \<Rightarrow> []) cs)"

text \<open>
  A check over the names alone, used to show that the notebook runs: with \<open>B\<close> the names
  known to be bound, every statement reads names of \<open>B\<close> only.
\<close>

fun reads_of :: "stmt \<Rightarrow> string list" where
  "reads_of (Import x src) = []"
| "reads_of (Def f src) = []"
| "reads_of (Assign x src names) = names"
| "reads_of (Update x src names) = x # names"
| "reads_of (Expr src names) = names"
| "reads_of (Del x) = [x]"

fun bound_after :: "stmt \<Rightarrow> string list \<Rightarrow> string list" where
  "bound_after (Import x src) B = x # B"
| "bound_after (Def f src) B = f # B"
| "bound_after (Assign x src names) B = x # B"
| "bound_after (Update x src names) B = B"
| "bound_after (Expr src names) B = B"
| "bound_after (Del x) B = removeAll x B"

fun names_ok :: "stmt list \<Rightarrow> string list \<Rightarrow> bool" where
  "names_ok [] B = True"
| "names_ok (c # cs) B =
     (list_all (\<lambda>n. n \<in> set B) (reads_of c) \<and> names_ok cs (bound_after c B))"

section \<open>Example inputs\<close>

text \<open>A collections response with two entries, the first one carrying the id.\<close>

definition example_collections :: "nat json" where
  "example_collections =
     JObj [(''feed'', JObj [(''entry'',
       JArr [JObj [(''id'', JStr ''C2408750690-LPCLOUD'')], JObj []])])]"

text \<open>An entry with one polygon of seven tokens and a second ring, and an entry without
  the field. Coordinates are kept as their text (\<open>float = Inr\<close>).\<close>

definition example_polygon_entry :: "nat json" where
  "example_polygon_entry =
     JObj [(''polygons'', JArr [JArr [JStr ''10 20 30 40 50 60 70'', JStr ''1 2 3 4 5 6'']])]"


text \<open>
  A search endpoint with two pages of one granule each and an empty third page. The
  first granule has a polygon and three kinds of links, the second has no \<open>polygons\<close>
  field and no link that is kept. Coordinates are kept as their text.
\<close>

definition example_granule_1 :: "nat json" where
  "example_granule_1 =
     JObj [(''title'', JStr ''E1''),
           (''cloud_cover'', JStr ''82''),
           (''polygons'', JArr [JArr [JStr ''-39.2 -62.1 -39.9 -62.5 -40.5 -61.7'']]),
           (''links'', JArr [JObj [(''href'', JStr ''https://d/E_RFL_1.nc'')],
                             JObj [(''href'', JStr ''s3://d/E_RFL_1.nc'')],
                             JObj [(''href'', JStr ''https://d/E_RFLUNCERT_1.nc'')],
                             JObj [(''href'', JStr ''https://d/E_MASK_1.nc'')],
                             JObj [(''href'', JStr ''https://d/E_RFL_1.nc.dmrpp'')]])]"

definition example_granule_2 :: "nat json" where
  "example_granule_2 =
     JObj [(''title'', JStr ''E2''),
           (''cloud_cover'', JNum 7),
           (''links'', JArr [JObj [(''href'', JStr ''https://d/E2.png'')]])]"

definition example_page :: "nat json list \<Rightarrow> nat json" where
  "example_page gs = JObj [(''feed'', JObj [(''entry'', JArr gs)])]"

definition example_post :: "nat post_call \<Rightarrow> pyerror + nat json" where
  "example_post call =
     (if map_of (data call) ''page_num'' = Some (PInt 1) then Inr (example_page [example_granule_1])
      else if map_of (data call) ''page_num'' = Some (PInt 2) then Inr (example_page [example_granule_2])
      else Inr (example_page []))"

definition example_row_1 :: "(nat, string) granule_row" where
  "example_row_1 =
     ([JStr ''https://d/E_RFL_1.nc'', JStr ''https://d/E_RFLUNCERT_1.nc'', JStr ''https://d/E_MASK_1.nc''],
      JStr ''82'',
      MultiPolygon [Polygon [(''-62.1'', ''-39.2''), (''-62.5'', ''-39.9''), (''-61.7'', ''-40.5'')]])"

definition example_row_2 :: "(nat, string) granule_row" where
  "example_row_2 = ([], JNum 7, EmptyStr)"

text \<open>A datetime and \<open>strftime\<close> for the directives of \<open>dt_format\<close>, each field written
  with its leading zeros (years of four digits).\<close>

record datetime =
  year :: nat
  month :: nat
  day :: nat
  hour :: nat
  minute :: nat
  second :: nat

definition digit :: "nat \<Rightarrow> char" where
  "digit n = ''0123456789'' ! (n mod 10)"

definition two_digits :: "nat \<Rightarrow> string" where
  "two_digits n = [digit (n div 10), digit n]"

fun example_strftime :: "datetime \<Rightarrow> string \<Rightarrow> string" where
  "example_strftime d [] = []"
| "example_strftime d [c] = [c]"
| "example_strftime d (c # e # cs) =
     (if c = CHR ''%'' then
        (if e = CHR ''Y'' then two_digits (year d div 100) @ two_digits (year d)
         else if e = CHR ''m'' then two_digits (month d)
         else if e = CHR ''d'' then two_digits (day d)
         else if e = CHR ''H'' then two_digits (hour d)
         else if e = CHR ''M'' then two_digits (minute d)
         else if e = CHR ''S'' then two_digits (second d)
         else [c, e]) @ example_strftime d cs
      else c # example_strftime d (e # cs))"

definition example_start_date :: datetime where
  "example_start_date = \<lparr>year = 2022, month = 9, day = 3, hour = 0, minute = 0, second = 0\<rparr>"

definition example_end_date :: datetime where
  "example_end_date = \<lparr>year = 2022, month = 9, day = 3, hour = 23, minute = 23, second = 59\<rparr>"

text \<open>A filtered table in which one URL stands in two rows, the last row among them.\<close>

definition example_filtered_df ::
  "(nat \<times> string option \<times> nat json option \<times> nat json \<times> string geometry) list" where
  "example_filtered_df =
     [(0, Some ''E_RFL_1.nc'', Some (JStr ''https://d/E_RFL_1.nc''), JStr ''82'', MultiPolygon []),
      (0, Some ''E_MASK_1.nc'', Some (JStr ''https://d/E_MASK_1.nc''), JStr ''82'', MultiPolygon []),
      (1, Some ''E_RFL_1.nc'', Some (JStr ''https://d/E_RFL_1.nc''), JStr ''82'', MultiPolygon [])]"

text \<open>A granule whose one kept link has a comma in its URL, and its row.\<close>

definition example_granule_comma :: "nat json" where
  "example_granule_comma =
     JObj [(''cloud_cover'', JStr ''82''),
           (''polygons'', JArr [JArr [JStr ''-39.2 -62.1 -39.9 -62.5 -40.5 -61.7'']]),
           (''links'', JArr [JObj [(''href'', JStr ''https://d/a,b_RFL_1.nc'')]])]"

definition example_row_comma :: "(nat, string) granule_row" where
  "example_row_comma =
     ([JStr ''https://d/a,b_RFL_1.nc''],
      JStr ''82'',
      MultiPolygon [Polygon [(''-62.1'', ''-39.2''), (''-62.5'', ''-39.9''), (''-61.7'', ''-40.5'')]])"

text \<open>A granule without \<open>polygons\<close> that has a reflectance link, and a granule with a
  polygon and no link that is kept, with their rows.\<close>

definition example_granule_3 :: "nat json" where
  "example_granule_3 =
     JObj [(''cloud_cover'', JNum 12),
           (''links'', JArr [JObj [(''href'', JStr ''https://d/E3_RFL_1.nc'')]])]"

definition example_granule_4 :: "nat json" where
  "example_granule_4 =
     JObj [(''cloud_cover'', JNum 30),
           (''polygons'', JArr [JArr [JStr ''1 2 3 4 5 6 1 2'']]),
           (''links'', JArr [JObj [(''href'', JStr ''https://d/E4_RFL_1.png'')]])]"

definition example_row_3 :: "(nat, string) granule_row" where
  "example_row_3 = ([JStr ''https://d/E3_RFL_1.nc''], JNum 12, EmptyStr)"

definition example_row_4 :: "(nat, string) granule_row" where
  "example_row_4 =
     ([], JNum 30,
      MultiPolygon [Polygon [(''2'', ''1''), (''4'', ''3''), (''6'', ''5''), (''2'', ''1'')]])"

text \<open>
  Two datasets of two bands on five pixels, without a coordinate on \<open>bands\<close>, and a
  numeric library that computes on the reals without rounding (the quotient of finite
  values only). The mean of the second band of \<open>example_scene\<close> is one half.
\<close>

definition example_ds :: dataset where
  "example_ds =
     \<lparr>bands = None,
      reflectance = \<lparr>shape = [1, 5, 2],
                     elems = [Fin (- (1 / 100)), Fin (1 / 10), Fin 0, Fin (3 / 10), NaN, NaN,
                              Fin 2, Fin (3 / 2), PosInf, Fin (- (11 / 10))]\<rparr>\<rparr>"

definition example_scene :: dataset where
  "example_scene =
     \<lparr>bands = None,
      reflectance = \<lparr>shape = [1, 5, 2],
                     elems = [Fin (1 / 10), Fin 0, Fin (3 / 10), Fin 0, Fin (1 / 5), Fin 0,
                              Fin (1 / 2), Fin 2, Fin (2 / 5), NaN]\<rparr>\<rparr>"

definition finite_values :: "npfloat list \<Rightarrow> real list" where
  "finite_values xs = concat (map (\<lambda>x. case x of Fin r \<Rightarrow> [r] | _ \<Rightarrow> []) xs)"

definition exact_numerics :: numerics where
  "exact_numerics =
     \<lparr>literal = (\<lambda>r. r),
      log_pos = (\<lambda>r. Fin (ln r)),
      truediv = (\<lambda>a b. case (a, b) of (Fin x, Fin y) \<Rightarrow> Fin (x / y) | _ \<Rightarrow> NaN),
      np_power = (\<lambda>a b. case (a, b) of
                    (Fin x, Fin y) \<Rightarrow>
                      if 0 < x then Fin (x powr y)
                      else if x = 0 then (if 0 < y then Fin 0 else if y = 0 then Fin 1 else PosInf)
                      else if y = real_of_int \<lfloor>y\<rfloor> then Fin (power_int x \<lfloor>y\<rfloor>)
                      else NaN
                  | _ \<Rightarrow> NaN),
      np_nanmean = (\<lambda>xs. if PosInf \<in> set xs then (if NegInf \<in> set xs then NaN else PosInf)
                          else if NegInf \<in> set xs then NegInf
                          else if finite_values xs = [] then NaN
                          else Fin (sum_list (finite_values xs) / real (length (finite_values xs)))),
      finfo_max = 10 ^ 38\<rparr>"

section \<open>Facts about the Python helpers\<close>

lemma ebind_Inr [simp]: "ebind (Inr v) f = f v"
  by (simp add: ebind_def)

lemma ebind_Inl [simp]: "ebind (Inl e) f = Inl e"
  by (simp add: ebind_def)

lemma ebind_eq_Inr: "ebind m f = Inr y \<longleftrightarrow> (\<exists>v. m = Inr v \<and> f v = Inr y)"
  by (cases m) simp_all

lemma split_on_nonempty [simp]: "split_on c s \<noteq> []"
  by (induction s) (auto split: list.splits)

lemma split_on_no_sep: "c \<notin> set s \<Longrightarrow> split_on c s = [s]"
  by (induction s) auto

lemma split_on_append_sep: "c \<notin> set a \<Longrightarrow> split_on c (a @ c # b) = a # split_on c b"
  by (induction a) auto

lemma split_on_piece_no_sep: "w \<in> set (split_on c s) \<Longrightarrow> c \<notin> set w"
proof (induction s arbitrary: w)
  case Nil
  then show ?case by simp
next
  case (Cons x xs)
  obtain v vs where vs: "split_on c xs = v # vs"
    by (cases "split_on c xs") simp_all
  show ?case
  proof (cases "x = c")
    case True
    with Cons show ?thesis by auto
  next
    case False
    with Cons.prems vs have "w = x # v \<or> w \<in> set vs" by simp
    then show ?thesis
    proof
      assume "w = x # v"
      moreover have "c \<notin> set v" using Cons.IH [of v] vs by simp
      ultimately show ?thesis using False by simp
    next
      assume "w \<in> set vs"
      then show ?thesis using Cons.IH [of w] vs by simp
    qed
  qed
qed

text \<open>Joining the pieces with the separator gives the string back, so \<open>split_on\<close>
  is the split Python makes.\<close>

lemma split_on_join: "concat (map (\<lambda>w. c # w) (split_on c s)) = c # s"
  by (induction s) (auto split: list.splits)

lemma split_on_pair:
  "c \<notin> set a \<Longrightarrow> c \<notin> set b \<Longrightarrow> split_on c (a @ [c] @ b) = [a, b]"
  by (simp add: split_on_append_sep split_on_no_sep)

lemma zip_self_nth:
  "zip_self xs = map (\<lambda>k. (xs ! (2 * k), xs ! (2 * k + 1))) [0..<length xs div 2]"
proof (induction xs rule: zip_self.induct)
  case (1 a b xs)
  have "[0..<length (a # b # xs) div 2] = 0 # map Suc [0..<length xs div 2]"
    by (simp add: upt_conv_Cons map_Suc_upt del: upt_Suc)
  then show ?case using 1 by (simp add: comp_def)
qed simp_all

lemma length_zip_self: "length (zip_self xs) = length xs div 2"
  by (simp add: zip_self_nth)

lemma zip_self_set: "(a, b) \<in> set (zip_self xs) \<Longrightarrow> a \<in> set xs \<and> b \<in> set xs"
  by (induction xs rule: zip_self.induct) auto

lemma map_err_map_Inr:
  "(\<And>x. x \<in> set xs \<Longrightarrow> f (h x) = Inr (g x)) \<Longrightarrow> map_err f (map h xs) = Inr (map g xs)"
  by (induction xs) simp_all

lemma py_getitem_Inr:
  "py_getitem g k = Inr v \<Longrightarrow> \<exists>kvs. g = JObj kvs \<and> map_of kvs k = Some v"
  by (cases g) (auto split: option.splits)

lemma py_getitem_in: "py_getitem g k = Inr v \<Longrightarrow> py_in k g = Inr True"
  by (cases g) (auto split: option.splits dest: map_of_SomeD intro: rev_image_eqI)

section \<open>The concept ID\<close>

lemma resolve_concept_id_empty_entry:
  "resolve_concept_id (\<lambda>u. Inr (JObj [(''feed'', JObj [(''entry'', JArr [])])])) doi
     = ([doisearch doi], Inl IndexError)"
  by (simp add: resolve_concept_id_def ebind_def)

text \<open>
  Claim C5, with the condition it needs. The concept ID is resolved by one GET of
  \<open>collections.json?doi=<doi>\<close> under the CMR base URL. For every decoded response with a
  non-empty \<open>entry\<close> list under \<open>feed\<close>, what the resolution yields is the lookup of
  \<open>id\<close> in the first element of that list, whatever the later elements are: when that
  element has an \<open>id\<close> field, the resolution succeeds and returns it.
\<close>

theorem concept_id_first_entry:
  assumes "http_get (doisearch doi) = Inr body"
    and "py_getitem body ''feed'' = Inr feed"
    and "py_getitem feed ''entry'' = Inr (JArr (first # rest))"
  shows "resolve_concept_id http_get doi =
           ([cmrurl @ ''collections.json?doi='' @ doi], py_getitem first ''id'')
         \<and> (py_getitem first ''id'' = Inr cid \<longrightarrow>
              resolve_concept_id http_get doi =
                ([cmrurl @ ''collections.json?doi='' @ doi], Inr cid))"
  using assms by (simp add: resolve_concept_id_def ebind_def doisearch_def)

theorem concept_id_first_entry_witness:
  "resolve_concept_id (\<lambda>u. Inr example_collections) ''10.5067/EMIT/EMITL2ARFL.001''
     = ([cmrurl @ ''collections.json?doi=10.5067/EMIT/EMITL2ARFL.001''],
        Inr (JStr ''C2408750690-LPCLOUD''))"
proof -
  let ?first = "JObj [(''id'', JStr ''C2408750690-LPCLOUD'')] :: nat json"
  let ?feed = "JObj [(''entry'', JArr [?first, JObj []])]"
  let ?get = "\<lambda>u::string. Inr example_collections :: pyerror + nat json"
  have 1: "?get (doisearch ''10.5067/EMIT/EMITL2ARFL.001'') = Inr example_collections"
    by simp
  have 2: "py_getitem example_collections ''feed'' = Inr ?feed"
    by (simp add: example_collections_def)
  have 3: "py_getitem ?feed ''entry'' = Inr (JArr (?first # [JObj []]))"
    by simp
  have 4: "py_getitem ?first ''id'' = Inr (JStr ''C2408750690-LPCLOUD'')"
    by simp
  from concept_id_first_entry [OF 1 2 3, where cid = "JStr ''C2408750690-LPCLOUD''"] 4
  show ?thesis by simp
qed

text \<open>
  A non-empty \<open>entry\<close> list is not enough for the resolution to succeed: when its first
  element has no \<open>id\<close> field, the last subscript raises \<open>KeyError\<close> and \<open>concept_id\<close>
  is not bound.
\<close>

theorem concept_id_missing_id_counterexample:
  "py_getitem0 (JArr [JObj [(''short_name'', JStr ''EMITL2ARFL'')]] :: nat json)
     = Inr (JObj [(''short_name'', JStr ''EMITL2ARFL'')])
   \<and> resolve_concept_id
       (\<lambda>u. Inr (JObj [(''feed'', JObj [(''entry'',
              JArr [JObj [(''short_name'', JStr ''EMITL2ARFL'')]])])]) :: pyerror + nat json)
       ''10.5067/EMIT/EMITL2ARFL.001''
     = ([cmrurl @ ''collections.json?doi=10.5067/EMIT/EMITL2ARFL.001''], Inl KeyError)"
  by (simp add: resolve_concept_id_def ebind_def doisearch_def)

section \<open>The bounding geometry of a granule\<close>

lemma lon_lat_joined:
  assumes "CHR '' '' \<notin> set a" "CHR '' '' \<notin> set b"
    and "float a = Inr lat" "float b = Inr lon"
  shows "lon_lat float (a @ '' '' @ b) = Inr (lon, lat)"
  using assms split_on_pair [of "CHR '' ''" a b]
  by (simp add: lon_lat_def py_nth_def)

lemma polygon_of_ring:
  assumes "\<And>a b. (a, b) \<in> set (zip_self (split_on CHR '' '' s)) \<Longrightarrow>
             float a = Inr (num a) \<and> float b = Inr (num b)"
  shows "polygon_of float (JArr (JStr s # rest)) =
           new_Polygon (map (\<lambda>(a, b). (num b, num a)) (zip_self (split_on CHR '' '' s)))"
proof -
  let ?ps = "zip_self (split_on CHR '' '' s)"
  have "lon_lat float ((\<lambda>(a, b). a @ '' '' @ b) ab) = Inr ((\<lambda>(a, b). (num b, num a)) ab)"
    if "ab \<in> set ?ps" for ab
  proof -
    obtain a b where ab: "ab = (a, b)" by (cases ab)
    with that have mem: "(a, b) \<in> set ?ps" by simp
    from zip_self_set [OF mem] have "CHR '' '' \<notin> set a" "CHR '' '' \<notin> set b"
      by (auto dest: split_on_piece_no_sep)
    moreover from assms [OF mem] have "float a = Inr (num a)" "float b = Inr (num b)"
      by simp_all
    ultimately show ?thesis using lon_lat_joined [of a b float "num a" "num b"] ab
      by simp
  qed
  then have "map_err (lon_lat float) (map (\<lambda>(a, b). a @ '' '' @ b) ?ps)
               = Inr (map (\<lambda>(a, b). (num b, num a)) ?ps)"
    by (rule map_err_map_Inr)
  then show ?thesis by (simp add: polygon_of_def)
qed

text \<open>A ring of one or two pairs of numbers ends the cell: the constructor raises.\<close>

lemma polygon_of_short_ring:
  assumes "\<And>a b. (a, b) \<in> set (zip_self (split_on CHR '' '' s)) \<Longrightarrow>
             float a = Inr (num a) \<and> float b = Inr (num b)"
    and "length (split_on CHR '' '' s) div 2 = 1 \<or> length (split_on CHR '' '' s) div 2 = 2"
  shows "polygon_of float (JArr (JStr s # rest)) = Inl ValueError"
proof -
  have "polygon_of float (JArr (JStr s # rest)) =
          new_Polygon (map (\<lambda>(a, b). (num b, num a)) (zip_self (split_on CHR '' '' s)))"
    using assms(1) by (rule polygon_of_ring)
  with assms(2) show ?thesis
    by (auto simp: new_Polygon_def length_zip_self)
qed

lemma read_polygons_short_ring:
  assumes "py_getitem g ''polygons'' = Inr (JArr (JArr (JStr s # rest) # polys))"
    and "\<And>a b. (a, b) \<in> set (zip_self (split_on CHR '' '' s)) \<Longrightarrow>
             float a = Inr (num a) \<and> float b = Inr (num b)"
    and "length (split_on CHR '' '' s) div 2 = 1 \<or> length (split_on CHR '' '' s) div 2 = 2"
  shows "read_polygons float g = Inl ValueError"
  using py_getitem_in [OF assms(1)] assms(1)
    polygon_of_short_ring [of s float num rest, OF assms(2) assms(3)]
  by (simp add: read_polygons_def)

lemma read_polygons_two_vertices:
  "read_polygons Inr (JObj [(''polygons'', JArr [JArr [JStr ''10 20 30 40'']])] :: nat json)
     = (Inl ValueError :: pyerror + string geometry)"
  by (simp add: read_polygons_def polygon_of_def new_Polygon_def lon_lat_def py_nth_def)

lemma read_polygons_rings:
  assumes field: "py_getitem g ''polygons'' =
                    Inr (JArr (map (\<lambda>(s, rest). JArr (JStr s # rest)) rings))"
    and long: "\<And>s rest. (s, rest) \<in> set rings \<Longrightarrow> 3 \<le> length (split_on CHR '' '' s) div 2"
    and nums: "\<And>s rest k. (s, rest) \<in> set rings \<Longrightarrow>
                 k < 2 * (length (split_on CHR '' '' s) div 2) \<Longrightarrow>
                 float (split_on CHR '' '' s ! k) = Inr (num (split_on CHR '' '' s ! k))"
  shows "read_polygons float g =
           Inr (MultiPolygon (map (\<lambda>(s, rest). Polygon (swapped_pairs num s)) rings))"
proof -
  have "polygon_of float ((\<lambda>(s, rest). JArr (JStr s # rest)) r) =
          Inr ((\<lambda>(s, rest). Polygon (swapped_pairs num s)) r)"
    if r: "r \<in> set rings" for r
  proof -
    obtain s rest where sr: "r = (s, rest)" by (cases r)
    let ?t = "split_on CHR '' '' s"
    have "float a = Inr (num a) \<and> float b = Inr (num b)"
      if "(a, b) \<in> set (zip_self ?t)" for a b
    proof -
      from that obtain k where k: "k < length ?t div 2" "a = ?t ! (2 * k)" "b = ?t ! (2 * k + 1)"
        by (auto simp: zip_self_nth)
      then have "2 * k < 2 * (length ?t div 2)" "2 * k + 1 < 2 * (length ?t div 2)"
        by simp_all
      with nums [of s rest] r sr k show ?thesis by blast
    qed
    then have "polygon_of float (JArr (JStr s # rest)) =
           new_Polygon (map (\<lambda>(a, b). (num b, num a)) (zip_self ?t))"
      by (rule polygon_of_ring)
    moreover have "3 \<le> length (zip_self ?t)"
      using long [of s rest] r sr by (simp add: length_zip_self)
    ultimately have "polygon_of float (JArr (JStr s # rest)) =
           Inr (Polygon (map (\<lambda>(a, b). (num b, num a)) (zip_self ?t)))"
      by (simp add: new_Polygon_def)
    then show ?thesis by (simp add: sr zip_self_nth comp_def swapped_pairs_def)
  qed
  then have "map_err (polygon_of float) (map (\<lambda>(s, rest). JArr (JStr s # rest)) rings) =
     Inr (map (\<lambda>(s, rest). Polygon (swapped_pairs num s)) rings)"
    by (rule map_err_map_Inr)
  then show ?thesis using field py_getitem_in [OF field]
    by (simp add: read_polygons_def)
qed

lemma read_polygons_absent:
  "py_in ''polygons'' g = Inr False \<Longrightarrow> read_polygons float g = Inr EmptyStr"
  by (simp add: read_polygons_def)

text \<open>
  Claim C3, as the code has it. Take a granule entry whose \<open>polygons\<close> field is a list
  of lists, each with a string of space-separated numbers (latitude, longitude,
  latitude, ...) as its first item, the string holding at least three pairs. Its
  geometry is a \<open>MultiPolygon\<close> of one polygon per element, made from that first string
  alone: \<open>Polygon\<close> is called on the (longitude, latitude) pairs in their order, each
  consecutive pair of numbers swapped, and a last token without a partner is dropped
  (it is not even read as a number). An entry without a \<open>polygons\<close> field has the
  empty string as its geometry.
\<close>

theorem polygons_swapped_per_ring:
  "(py_getitem g ''polygons'' = Inr (JArr (map (\<lambda>(s, rest). JArr (JStr s # rest)) rings)) \<and>
    (\<forall>(s, rest) \<in> set rings. 3 \<le> length (split_on CHR '' '' s) div 2 \<and>
       (\<forall>k < 2 * (length (split_on CHR '' '' s) div 2).
          float (split_on CHR '' '' s ! k) = Inr (num (split_on CHR '' '' s ! k))))
    \<longrightarrow> read_polygons float g =
          Inr (MultiPolygon (map (\<lambda>(s, rest). Polygon (swapped_pairs num s)) rings)))
   \<and> (py_in ''polygons'' g = Inr False \<longrightarrow> read_polygons float g = Inr EmptyStr)"
proof (intro conjI impI)
  assume h: "py_getitem g ''polygons'' = Inr (JArr (map (\<lambda>(s, rest). JArr (JStr s # rest)) rings)) \<and>
    (\<forall>(s, rest) \<in> set rings. 3 \<le> length (split_on CHR '' '' s) div 2 \<and>
       (\<forall>k < 2 * (length (split_on CHR '' '' s) div 2).
          float (split_on CHR '' '' s ! k) = Inr (num (split_on CHR '' '' s ! k))))"
  show "read_polygons float g =
          Inr (MultiPolygon (map (\<lambda>(s, rest). Polygon (swapped_pairs num s)) rings))"
  proof (rule read_polygons_rings)
    show "py_getitem g ''polygons'' = Inr (JArr (map (\<lambda>(s, rest). JArr (JStr s # rest)) rings))"
      using h by simp
  next
    fix s rest
    assume "(s, rest) \<in> set rings"
    with h show "3 \<le> length (split_on CHR '' '' s) div 2"
      by blast
  next
    fix s rest k
    assume "(s, rest) \<in> set rings" "k < 2 * (length (split_on CHR '' '' s) div 2)"
    with h show "float (split_on CHR '' '' s ! k) = Inr (num (split_on CHR '' '' s ! k))"
      by blast
  qed
next
  assume "py_in ''polygons'' g = Inr False"
  then show "read_polygons float g = Inr EmptyStr"
    by (rule read_polygons_absent)
qed

theorem polygons_swapped_per_ring_witness:
  "read_polygons Inr example_polygon_entry
     = Inr (MultiPolygon [Polygon [(''20'', ''10''), (''40'', ''30''), (''60'', ''50'')]])
   \<and> read_polygons Inr (JObj [(''cloud_cover'', JStr ''82'')] :: nat json)
     = (Inr EmptyStr :: pyerror + string geometry)"
proof -
  let ?rings = "[(''10 20 30 40 50 60 70'', [JStr ''1 2 3 4 5 6''])] :: (string \<times> nat json list) list"
  have 1: "py_getitem example_polygon_entry ''polygons''
             = Inr (JArr (map (\<lambda>(s, rest). JArr (JStr s # rest)) ?rings))"
    by (simp add: example_polygon_entry_def)
  have 2: "\<forall>(s, rest) \<in> set ?rings. 3 \<le> length (split_on CHR '' '' s) div 2 \<and>
             (\<forall>k < 2 * (length (split_on CHR '' '' s) div 2).
               (Inr :: string \<Rightarrow> pyerror + string) (split_on CHR '' '' s ! k)
                 = Inr ((\<lambda>t. t) (split_on CHR '' '' s ! k)))"
    by simp
  have 3: "py_in ''polygons'' (JObj [(''cloud_cover'', JStr ''82'')] :: nat json) = Inr False"
    by simp
  have 4: "swapped_pairs (\<lambda>t. t) ''10 20 30 40 50 60 70''
             = [(''20'', ''10''), (''40'', ''30''), (''60'', ''50'')]"
    by (simp add: swapped_pairs_def upt_conv_Cons)
  from polygons_swapped_per_ring [of example_polygon_entry ?rings Inr "\<lambda>t. t"] 1 2
  have "read_polygons Inr example_polygon_entry
          = Inr (MultiPolygon (map (\<lambda>(s, rest). Polygon (swapped_pairs (\<lambda>t. t) s)) ?rings))"
    by blast
  moreover from polygons_swapped_per_ring
      [of "JObj [(''cloud_cover'', JStr ''82'')]" "[]" "Inr :: string \<Rightarrow> pyerror + string" "\<lambda>t. t"] 3
  have "read_polygons Inr (JObj [(''cloud_cover'', JStr ''82'')] :: nat json)
          = (Inr EmptyStr :: pyerror + string geometry)"
    by blast
  ultimately show ?thesis using 4 by simp
qed

text \<open>
  The claim as the specification words it takes the elements of \<open>polygons\<close> to be the
  strings themselves. On such an entry \<open>poly[0]\<close> is the first character of the string,
  a single token, and the polygon has no vertex at all.
\<close>

theorem polygons_of_strings_counterexample:
  "read_polygons Inr (JObj [(''polygons'', JArr [JStr ''10 20 30 40 50 60''])] :: nat json)
     = Inr (MultiPolygon [Polygon []])
   \<and> read_polygons Inr (JObj [(''polygons'', JArr [JStr ''10 20 30 40 50 60''])] :: nat json)
     \<noteq> Inr (MultiPolygon [Polygon [(''20'', ''10''), (''40'', ''30''), (''60'', ''50'')]])
   \<and> swapped_pairs (\<lambda>t. t) ''10 20 30 40 50 60''
     = [(''20'', ''10''), (''40'', ''30''), (''60'', ''50'')]"
  by (simp add: read_polygons_def polygon_of_def new_Polygon_def swapped_pairs_def upt_conv_Cons)

section \<open>The page loop\<close>

lemma append_granules_all_Inr:
  "(\<And>g. g \<in> set gs \<Longrightarrow> parse g = Inr (row g)) \<Longrightarrow>
     append_granules parse gs arr = (arr @ map row gs, None)"
  by (induction gs arbitrary: arr) simp_all

lemma search_loop_pages:
  fixes K :: int
  assumes pages: "\<And>k. p \<le> k \<Longrightarrow> k < K \<Longrightarrow>
              fetch_entry http_post (cmr_call k) = Inr (JArr (gs k)) \<and> gs k \<noteq> [] \<and>
              (\<forall>g \<in> set (gs k). parse g = Inr (row g))"
    and last: "fetch_entry http_post (cmr_call K) = Inr (JArr [])"
    and "p \<le> K" "page_num st = p" "nat (K - p) < fuel"
  shows "search_loop fuel http_post nonzero cmr_call parse st =
           Finished \<lparr>page_num = K,
                     granule_arr = granule_arr st @ concat (map (\<lambda>k. map row (gs k)) [p..K - 1]),
                     sent = sent st @ map cmr_call [p..K]\<rparr>"
  using assms
proof (induction fuel arbitrary: p st)
  case 0
  then show ?case by simp
next
  case (Suc fuel)
  show ?case
  proof (cases "p = K")
    case True
    with Suc.prems show ?thesis by (simp add: Let_def)
  next
    case False
    with Suc.prems have lt: "p < K" by simp
    from Suc.prems(1) [of p] lt
    have f: "fetch_entry http_post (cmr_call p) = Inr (JArr (gs p))" and ne: "gs p \<noteq> []"
      and ok: "\<And>g. g \<in> set (gs p) \<Longrightarrow> parse g = Inr (row g)"
      by auto
    let ?st' = "st\<lparr>sent := sent st @ [cmr_call p], granule_arr := granule_arr st @ map row (gs p),
                   page_num := p + 1\<rparr>"
    have step: "search_loop (Suc fuel) http_post nonzero cmr_call parse st =
                  search_loop fuel http_post nonzero cmr_call parse ?st'"
      using f ne Suc.prems(4) append_granules_all_Inr [of "gs p" parse row "granule_arr st", OF ok]
      by (simp add: Let_def)
    have "search_loop fuel http_post nonzero cmr_call parse ?st' =
           Finished \<lparr>page_num = K,
                     granule_arr = granule_arr ?st' @ concat (map (\<lambda>k. map row (gs k)) [p + 1..K - 1]),
                     sent = sent ?st' @ map cmr_call [p + 1..K]\<rparr>"
    proof (rule Suc.IH)
      show "fetch_entry http_post (cmr_call k) = Inr (JArr (gs k)) \<and> gs k \<noteq> [] \<and>
              (\<forall>g \<in> set (gs k). parse g = Inr (row g))" if "p + 1 \<le> k" "k < K" for k
        using Suc.prems(1) [of k] that by simp
      show "fetch_entry http_post (cmr_call K) = Inr (JArr [])" by (rule Suc.prems(2))
      show "p + 1 \<le> K" using lt by simp
      show "page_num ?st' = p + 1" by simp
      show "nat (K - (p + 1)) < fuel" using Suc.prems(5) lt by linarith
    qed
    moreover have "[p..K - 1] = p # [p + 1..K - 1]" "[p..K] = p # [p + 1..K]"
      using lt by (simp_all add: upto_rec1)
    ultimately show ?thesis using step by simp
  qed
qed

lemma append_granules_rows:
  "append_granules parse gs arr = (arr', e) \<Longrightarrow>
     \<exists>rows. arr' = arr @ rows \<and> (\<forall>row \<in> set rows. \<exists>g \<in> set gs. parse g = Inr row)"
proof (induction gs arbitrary: arr)
  case Nil
  then show ?case by simp
next
  case (Cons g gs)
  show ?case
  proof (cases "parse g")
    case (Inl err)
    with Cons.prems show ?thesis by simp
  next
    case (Inr row)
    with Cons.prems have "append_granules parse gs (arr @ [row]) = (arr', e)" by simp
    from Cons.IH [OF this] obtain rows where
      "arr' = (arr @ [row]) @ rows" "\<forall>r \<in> set rows. \<exists>g \<in> set gs. parse g = Inr r"
      by blast
    with Inr have "arr' = arr @ (row # rows) \<and> (\<forall>r \<in> set (row # rows). \<exists>g' \<in> set (g # gs). parse g' = Inr r)"
      by auto
    then show ?thesis by blast
  qed
qed

text \<open>One iteration, as a step from a state: either the loop ends there or it goes on
  from the next state.\<close>

lemma search_loop_Suc_cases:
  obtains (stop) "\<exists>s. search_loop (Suc fuel) hp nz mk parse st = s \<and> state_of s = st\<lparr>sent := sent st @ [mk (page_num st)]\<rparr>"
  | (raised) e rows where "search_loop (Suc fuel) hp nz mk parse st =
        Raised e (st\<lparr>sent := sent st @ [mk (page_num st)], granule_arr := granule_arr st @ rows\<rparr>)"
       "\<forall>row \<in> set rows. \<exists>gs g. ebind (fetch_entry hp (mk (page_num st))) py_iter = Inr gs \<and> g \<in> set gs \<and> parse g = Inr row"
  | (continue) rows where "search_loop (Suc fuel) hp nz mk parse st =
        search_loop fuel hp nz mk parse
          (st\<lparr>sent := sent st @ [mk (page_num st)], granule_arr := granule_arr st @ rows,
              page_num := page_num st + 1\<rparr>)"
       "\<forall>row \<in> set rows. \<exists>gs g. ebind (fetch_entry hp (mk (page_num st))) py_iter = Inr gs \<and> g \<in> set gs \<and> parse g = Inr row"
proof (cases "fetch_entry hp (mk (page_num st))")
  case (Inl e)
  then have "search_loop (Suc fuel) hp nz mk parse st = Raised e (st\<lparr>sent := sent st @ [mk (page_num st)]\<rparr>)"
    by (simp add: Let_def)
  then show ?thesis using stop by simp
next
  case (Inr granules)
  show ?thesis
  proof (cases "py_truthy nz granules")
    case False
    with Inr have "search_loop (Suc fuel) hp nz mk parse st = Finished (st\<lparr>sent := sent st @ [mk (page_num st)]\<rparr>)"
      by (simp add: Let_def)
    then show ?thesis using stop by simp
  next
    case True
    show ?thesis
    proof (cases "py_iter granules")
      case (Inl e)
      with Inr True have "search_loop (Suc fuel) hp nz mk parse st = Raised e (st\<lparr>sent := sent st @ [mk (page_num st)]\<rparr>)"
        by (simp add: Let_def)
      then show ?thesis using stop by simp
    next
      case gs: (Inr gs)
      obtain arr' e where ag: "append_granules parse gs (granule_arr st) = (arr', e)"
        by (cases "append_granules parse gs (granule_arr st)")
      from append_granules_rows [OF ag] obtain rows where
        rows: "arr' = granule_arr st @ rows" "\<forall>row \<in> set rows. \<exists>g \<in> set gs. parse g = Inr row"
        by blast
      have prov: "\<forall>row \<in> set rows. \<exists>gs g. ebind (fetch_entry hp (mk (page_num st))) py_iter = Inr gs \<and> g \<in> set gs \<and> parse g = Inr row"
        using rows(2) Inr gs by auto
      show ?thesis
      proof (cases e)
        case None
        with Inr True gs ag rows(1) have "search_loop (Suc fuel) hp nz mk parse st =
          search_loop fuel hp nz mk parse
          (st\<lparr>sent := sent st @ [mk (page_num st)], granule_arr := granule_arr st @ rows,
              page_num := page_num st + 1\<rparr>)"
          by (simp add: Let_def)
        then show ?thesis using continue prov by blast
      next
        case (Some err)
        with Inr True gs ag rows(1) have "search_loop (Suc fuel) hp nz mk parse st =
           Raised err (st\<lparr>sent := sent st @ [mk (page_num st)], granule_arr := granule_arr st @ rows\<rparr>)"
          by (simp add: Let_def)
        then show ?thesis using raised prov by blast
      qed
    qed
  qed
qed

lemma search_loop_invariant:
  "\<exists>m rows. sent (state_of (search_loop fuel hp nz mk parse st))
               = sent st @ map mk [page_num st..page_num st + int m - 1]
     \<and> granule_arr (state_of (search_loop fuel hp nz mk parse st)) = granule_arr st @ rows
     \<and> (\<forall>row \<in> set rows. \<exists>k \<in> {page_num st..page_num st + int m - 1}.
           \<exists>gs g. ebind (fetch_entry hp (mk k)) py_iter = Inr gs \<and> g \<in> set gs \<and> parse g = Inr row)"
proof (induction fuel arbitrary: st)
  case 0
  have "sent st = sent st @ map mk [page_num st..page_num st + int 0 - 1] \<and>
        granule_arr st = granule_arr st @ [] \<and>
        (\<forall>row \<in> set []. \<exists>k \<in> {page_num st..page_num st + int 0 - 1}.
           \<exists>gs g. ebind (fetch_entry hp (mk k)) py_iter = Inr gs \<and> g \<in> set gs \<and> parse g = Inr row)"
    by simp
  then show ?case unfolding search_loop.simps state_of.simps by blast
next
  case (Suc fuel)
  let ?p = "page_num st"
  have one: "[?p..?p + int 1 - 1] = [?p]" by simp
  show ?case
  proof (cases rule: search_loop_Suc_cases [of fuel hp nz mk parse st])
    case stop
    then have "sent (state_of (search_loop (Suc fuel) hp nz mk parse st))
               = sent st @ map mk [?p..?p + int 1 - 1]
     \<and> granule_arr (state_of (search_loop (Suc fuel) hp nz mk parse st)) = granule_arr st @ []
     \<and> (\<forall>row \<in> set []. \<exists>k \<in> {?p..?p + int 1 - 1}.
           \<exists>gs g. ebind (fetch_entry hp (mk k)) py_iter = Inr gs \<and> g \<in> set gs \<and> parse g = Inr row)"
      by (auto simp del: search_loop.simps)
    then show ?thesis by blast
  next
    case (raised e rows)
    then have "sent (state_of (search_loop (Suc fuel) hp nz mk parse st))
               = sent st @ map mk [?p..?p + int 1 - 1]
     \<and> granule_arr (state_of (search_loop (Suc fuel) hp nz mk parse st)) = granule_arr st @ rows
     \<and> (\<forall>row \<in> set rows. \<exists>k \<in> {?p..?p + int 1 - 1}.
           \<exists>gs g. ebind (fetch_entry hp (mk k)) py_iter = Inr gs \<and> g \<in> set gs \<and> parse g = Inr row)"
      by (auto simp del: search_loop.simps)
    then show ?thesis by blast
  next
    case (continue rows)
    let ?st' = "st\<lparr>sent := sent st @ [mk ?p], granule_arr := granule_arr st @ rows, page_num := ?p + 1\<rparr>"
    from Suc.IH [of ?st'] obtain m rows' where
      s: "sent (state_of (search_loop fuel hp nz mk parse ?st')) = sent ?st' @ map mk [?p + 1..?p + 1 + int m - 1]"
      and a: "granule_arr (state_of (search_loop fuel hp nz mk parse ?st')) = granule_arr ?st' @ rows'"
      and r: "\<forall>row \<in> set rows'. \<exists>k \<in> {?p + 1..?p + 1 + int m - 1}.
           \<exists>gs g. ebind (fetch_entry hp (mk k)) py_iter = Inr gs \<and> g \<in> set gs \<and> parse g = Inr row"
      by auto
    have up: "[?p..?p + int (Suc m) - 1] = ?p # [?p + 1..?p + 1 + int m - 1]"
      by (simp add: upto_rec1 add.commute add.left_commute)
    have "sent (state_of (search_loop (Suc fuel) hp nz mk parse st))
               = sent st @ map mk [?p..?p + int (Suc m) - 1]"
      using continue(1) s up by (simp del: search_loop.simps)
    moreover have "granule_arr (state_of (search_loop (Suc fuel) hp nz mk parse st)) = granule_arr st @ (rows @ rows')"
      using continue(1) a by (simp del: search_loop.simps)
    moreover have "\<forall>row \<in> set (rows @ rows'). \<exists>k \<in> {?p..?p + int (Suc m) - 1}.
           \<exists>gs g. ebind (fetch_entry hp (mk k)) py_iter = Inr gs \<and> g \<in> set gs \<and> parse g = Inr row"
    proof
      fix row assume "row \<in> set (rows @ rows')"
      then consider "row \<in> set rows" | "row \<in> set rows'" by auto
      then show "\<exists>k \<in> {?p..?p + int (Suc m) - 1}.
           \<exists>gs g. ebind (fetch_entry hp (mk k)) py_iter = Inr gs \<and> g \<in> set gs \<and> parse g = Inr row"
      proof cases
        case 1
        with continue(2) have "\<exists>gs g. ebind (fetch_entry hp (mk ?p)) py_iter = Inr gs \<and> g \<in> set gs \<and> parse g = Inr row"
          by blast
        moreover have "?p \<in> {?p..?p + int (Suc m) - 1}" by simp
        ultimately show ?thesis by blast
      next
        case 2
        with r obtain k where "k \<in> {?p + 1..?p + 1 + int m - 1}"
           "\<exists>gs g. ebind (fetch_entry hp (mk k)) py_iter = Inr gs \<and> g \<in> set gs \<and> parse g = Inr row"
          by blast
        moreover then have "k \<in> {?p..?p + int (Suc m) - 1}" by simp
        ultimately show ?thesis by blast
      qed
    qed
    ultimately show ?thesis by blast
  qed
qed

text \<open>From the start of a cell: the calls are those for pages 1, 2, ..., and every row
  was parsed from an entry of a page that one of them fetched.\<close>

lemma search_loop_from_start:
  "\<exists>m. sent (state_of (search_loop fuel hp nz mk parse search_start)) = map mk [1..int m]
     \<and> (\<forall>row \<in> set (granule_arr (state_of (search_loop fuel hp nz mk parse search_start))).
          \<exists>k \<in> {1..int m}. \<exists>gs g. ebind (fetch_entry hp (mk k)) py_iter = Inr gs \<and> g \<in> set gs
             \<and> parse g = Inr row)"
proof -
  from search_loop_invariant [of fuel hp nz mk parse search_start]
  obtain m rows where
    "sent (state_of (search_loop fuel hp nz mk parse search_start)) = map mk [1..1 + int m - 1]"
    "granule_arr (state_of (search_loop fuel hp nz mk parse search_start)) = rows"
    "\<forall>row \<in> set rows. \<exists>k \<in> {1..1 + int m - 1}.
       \<exists>gs g. ebind (fetch_entry hp (mk k)) py_iter = Inr gs \<and> g \<in> set gs \<and> parse g = Inr row"
    by (auto simp: search_start_def)
  then show ?thesis by auto
qed

lemma cmr_call_point_page:
  "map_of (data (cmr_call_point concept_id temporal point k)) ''page_num'' = Some (PInt k)"
  by (simp add: cmr_call_point_def cmr_param_point_def)

lemma cmr_call_bbox_page:
  "map_of (data (cmr_call_bbox concept_id temporal bound k)) ''page_num'' = Some (PInt k)"
  by (simp add: cmr_call_bbox_def cmr_param_bbox_def)

lemma cmr_call_polygon_page:
  "map_of (data (cmr_call_polygon concept_id temporal polygon_json k)) ''page_num'' = Some (PInt k)"
  by (simp add: cmr_call_polygon_def cmr_param_polygon_def)

text \<open>An entry without \<open>cloud_cover\<close> ends the cell with \<open>KeyError\<close>, after the one
  call that fetched it.\<close>

lemma search_loop_missing_cloud_cover:
  assumes "fetch_entry http_post (cmr_call 1) = Inr (JArr [JObj []])"
  shows "search_loop (Suc fuel) http_post nonzero cmr_call (parse_granule float) search_start
           = Raised KeyError \<lparr>page_num = 1, granule_arr = [], sent = [cmr_call 1]\<rparr>"
  using assms by (simp add: search_start_def parse_granule_def Let_def)

text \<open>
  Claim C1. Whatever the endpoint answers, the page numbers of the calls made are
  1, 2, 3, ... in this order, one call each. When the pages 1 to \<open>K - 1\<close> come with
  non-empty entry lists whose granules parse, and page \<open>K\<close> comes with an empty entry
  list, the loop ends there (given \<open>K\<close> iterations), having made exactly the calls for
  the pages 1 to \<open>K\<close>, and \<open>granule_arr\<close> is the rows of the granules of the pages 1 to
  \<open>K - 1\<close>, page after page, in the order of the entries.
\<close>

theorem search_pages_in_order:
  fixes cmr_call :: "int \<Rightarrow> 'a post_call"
    and parse :: "'a json \<Rightarrow> pyerror + ('a, 'b) granule_row"
  assumes "\<And>k. map_of (data (cmr_call k)) ''page_num'' = Some (PInt k)"
  shows "map (\<lambda>c. map_of (data c) ''page_num'')
             (sent (state_of (search_loop fuel http_post nonzero cmr_call parse search_start)))
           = map (\<lambda>k. Some (PInt k))
               [1..int (length (sent (state_of
                  (search_loop fuel http_post nonzero cmr_call parse search_start))))]
         \<and> (1 \<le> K \<and> nat K \<le> fuel
              \<and> (\<forall>k \<in> {1..<K}. fetch_entry http_post (cmr_call k) = Inr (JArr (gs k))
                     \<and> gs k \<noteq> [] \<and> (\<forall>g \<in> set (gs k). parse g = Inr (row g)))
              \<and> fetch_entry http_post (cmr_call K) = Inr (JArr [])
            \<longrightarrow> search_loop fuel http_post nonzero cmr_call parse search_start
                  = Finished \<lparr>page_num = K,
                              granule_arr = concat (map (\<lambda>k. map row (gs k)) [1..K - 1]),
                              sent = map cmr_call [1..K]\<rparr>)"
proof (intro conjI impI)
  from search_loop_from_start [of fuel http_post nonzero cmr_call parse]
  obtain m where
    m: "sent (state_of (search_loop fuel http_post nonzero cmr_call parse search_start))
          = map cmr_call [1..int m]"
    by blast
  then have "length (sent (state_of (search_loop fuel http_post nonzero cmr_call parse search_start))) = m"
    by simp
  with m assms show "map (\<lambda>c. map_of (data c) ''page_num'')
             (sent (state_of (search_loop fuel http_post nonzero cmr_call parse search_start)))
           = map (\<lambda>k. Some (PInt k))
               [1..int (length (sent (state_of
                  (search_loop fuel http_post nonzero cmr_call parse search_start))))]"
    by (simp add: comp_def)
next
  assume h: "1 \<le> K \<and> nat K \<le> fuel
              \<and> (\<forall>k \<in> {1..<K}. fetch_entry http_post (cmr_call k) = Inr (JArr (gs k))
                     \<and> gs k \<noteq> [] \<and> (\<forall>g \<in> set (gs k). parse g = Inr (row g)))
              \<and> fetch_entry http_post (cmr_call K) = Inr (JArr [])"
  have "search_loop fuel http_post nonzero cmr_call parse search_start =
           Finished \<lparr>page_num = K,
                     granule_arr = granule_arr search_start @ concat (map (\<lambda>k. map row (gs k)) [1..K - 1]),
                     sent = sent (search_start :: ('a, 'b) search_state) @ map cmr_call [1..K]\<rparr>"
  proof (rule search_loop_pages [where p = 1])
    show "fetch_entry http_post (cmr_call k) = Inr (JArr (gs k)) \<and> gs k \<noteq> [] \<and>
              (\<forall>g \<in> set (gs k). parse g = Inr (row g))" if "1 \<le> k" "k < K" for k
      using h that by simp
    show "fetch_entry http_post (cmr_call K) = Inr (JArr [])" using h by simp
    show "1 \<le> K" using h by simp
    show "page_num (search_start :: ('a, 'b) search_state) = 1" by (simp add: search_start_def)
    show "nat (K - 1) < fuel" using h by linarith
  qed
  then show "search_loop fuel http_post nonzero cmr_call parse search_start
                  = Finished \<lparr>page_num = K,
                              granule_arr = concat (map (\<lambda>k. map row (gs k)) [1..K - 1]),
                              sent = map cmr_call [1..K]\<rparr>"
    by (simp add: search_start_def)
qed

theorem search_pages_in_order_witness:
  "map (\<lambda>c. map_of (data c) ''page_num'')
       (sent (state_of (search_point 7 example_post (\<lambda>n. n \<noteq> 0) Inr (JStr ''C1'') ''t'' ''p'')))
     = [Some (PInt 1), Some (PInt 2), Some (PInt 3)]
   \<and> search_point 7 example_post (\<lambda>n. n \<noteq> 0) Inr (JStr ''C1'') ''t'' ''p''
     = Finished \<lparr>page_num = 3, granule_arr = [example_row_1, example_row_2],
                 sent = map (cmr_call_point (JStr ''C1'') ''t'' ''p'') [1, 2, 3]\<rparr>"
proof -
  let ?call = "cmr_call_point (JStr ''C1'' :: nat json) ''t'' ''p''"
  let ?gs = "\<lambda>k::int. if k = 1 then [example_granule_1] else [example_granule_2]"
  let ?row = "\<lambda>g. if g = example_granule_1 then example_row_1 else example_row_2"
  have ne: "example_granule_2 \<noteq> example_granule_1"
    by (simp add: example_granule_1_def example_granule_2_def)
  have p1: "parse_granule Inr example_granule_1 = Inr example_row_1"
    by code_simp
  have p2: "parse_granule Inr example_granule_2 = Inr example_row_2"
    by code_simp
  have f1: "fetch_entry example_post (?call 1) = Inr (JArr [example_granule_1])"
    by (simp add: fetch_entry_def example_post_def example_page_def cmr_call_point_page)
  have f2: "fetch_entry example_post (?call 2) = Inr (JArr [example_granule_2])"
    by (simp add: fetch_entry_def example_post_def example_page_def cmr_call_point_page)
  have f3: "fetch_entry example_post (?call 3) = Inr (JArr [])"
    by (simp add: fetch_entry_def example_post_def example_page_def cmr_call_point_page)
  have pages: "\<forall>k \<in> {1..<3::int}. fetch_entry example_post (?call k) = Inr (JArr (?gs k))
                 \<and> ?gs k \<noteq> [] \<and> (\<forall>g \<in> set (?gs k). parse_granule Inr g = Inr (?row g))"
  proof
    fix k :: int assume "k \<in> {1..<3}"
    then have "k = 1 \<or> k = 2" by auto
    then show "fetch_entry example_post (?call k) = Inr (JArr (?gs k))
                 \<and> ?gs k \<noteq> [] \<and> (\<forall>g \<in> set (?gs k). parse_granule Inr g = Inr (?row g))"
      using f1 f2 p1 p2 ne by auto
  qed
  have up: "[1..3::int] = [1, 2, 3]" "[1..2::int] = [1, 2]"
    by (simp_all add: upto_rec1)
  note inst = search_pages_in_order [of ?call 7 example_post "\<lambda>n. n \<noteq> 0" "parse_granule Inr" 3 ?gs ?row,
      OF cmr_call_point_page, folded search_point_def]
  from inst pages f3 have fin: "search_point 7 example_post (\<lambda>n. n \<noteq> 0) Inr (JStr ''C1'') ''t'' ''p''
     = Finished \<lparr>page_num = 3, granule_arr = concat (map (\<lambda>k. map ?row (?gs k)) [1..3 - 1]),
                 sent = map ?call [1..3]\<rparr>"
    by simp
  then have fin': "search_point 7 example_post (\<lambda>n. n \<noteq> 0) Inr (JStr ''C1'') ''t'' ''p''
     = Finished \<lparr>page_num = 3, granule_arr = [example_row_1, example_row_2],
                 sent = map ?call [1, 2, 3]\<rparr>"
    using ne by (simp add: up)
  from fin' have s: "sent (state_of (search_point 7 example_post (\<lambda>n. n \<noteq> 0) Inr (JStr ''C1'') ''t'' ''p''))
      = map ?call [1, 2, 3]"
    by simp
  from inst have "map (\<lambda>c. map_of (data c) ''page_num'')
       (sent (state_of (search_point 7 example_post (\<lambda>n. n \<noteq> 0) Inr (JStr ''C1'') ''t'' ''p'')))
     = map (\<lambda>k. Some (PInt k)) [1..int (length (sent (state_of
          (search_point 7 example_post (\<lambda>n. n \<noteq> 0) Inr (JStr ''C1'') ''t'' ''p''))))]"
    by blast
  also have "map (\<lambda>k. Some (PInt k)) [1..int (length (sent (state_of
          (search_point 7 example_post (\<lambda>n. n \<noteq> 0) Inr (JStr ''C1'') ''t'' ''p''))))]
     = [Some (PInt 1), Some (PInt 2), Some (PInt 3)]"
    unfolding s by (simp add: up)
  finally show ?thesis using fin' by simp
qed

section \<open>What every request carries\<close>

lemma search_sent_calls:
  "c \<in> set (sent (state_of (search_loop fuel hp nz mk parse search_start)))
     \<Longrightarrow> \<exists>n \<ge> 1. c = mk n"
proof -
  assume c: "c \<in> set (sent (state_of (search_loop fuel hp nz mk parse search_start)))"
  from search_loop_from_start [of fuel hp nz mk parse] obtain m where
    "sent (state_of (search_loop fuel hp nz mk parse search_start)) = map mk [1..int m]"
    by blast
  with c show ?thesis by auto
qed

lemma bound_str_four:
  "bound_str str [west, south, east, north]
     = str west @ '','' @ str south @ '','' @ str east @ '','' @ str north"
  by (simp add: bound_str_def)

text \<open>
  Claim C4. Every call of the three search cells goes to \<open>granules.json\<close> under the CMR
  base URL (it is a POST: the cells call \<open>requests.post\<close> and nothing else). Its
  parameters are exactly \<open>collection_concept_id\<close>, \<open>page_size\<close> = 2000, \<open>page_num\<close> and
  \<open>temporal\<close> - the start and the end datetime, each formatted with
  \<open>%Y-%m-%dT%H:%M:%SZ\<close>, joined by a comma - and one more: \<open>point\<close> = \<open>lon,lat\<close> for the
  point search, \<open>bounding_box[]\<close> = \<open>west,south,east,north\<close> for the bounding-box search,
  \<open>simplify-shapefile\<close> for the polygon search, which alone uploads a file, the
  shapefile.
\<close>

theorem granule_requests_parameters:
  "(\<forall>c \<in> set (sent (state_of (search_point fuel http_post nonzero float concept_id
                      (temporal_str strftime start_date end_date) (point_str str lon lat)))).
      url c = cmrurl @ ''granules.json'' \<and> files c = [] \<and>
      (\<exists>n \<ge> 1. data c =
         [(''collection_concept_id'', PJson concept_id),
          (''page_size'', PInt 2000),
          (''page_num'', PInt n),
          (''temporal'', PStr (strftime start_date ''%Y-%m-%dT%H:%M:%SZ'' @ '','' @
                               strftime end_date ''%Y-%m-%dT%H:%M:%SZ'')),
          (''point'', PStr (str lon @ '','' @ str lat))]))
   \<and> (\<forall>c \<in> set (sent (state_of (search_bbox fuel http_post nonzero float concept_id
                      (temporal_str strftime start_date end_date)
                      (bound_str str [west, south, east, north])))).
      url c = cmrurl @ ''granules.json'' \<and> files c = [] \<and>
      (\<exists>n \<ge> 1. data c =
         [(''collection_concept_id'', PJson concept_id),
          (''page_size'', PInt 2000),
          (''page_num'', PInt n),
          (''temporal'', PStr (strftime start_date ''%Y-%m-%dT%H:%M:%SZ'' @ '','' @
                               strftime end_date ''%Y-%m-%dT%H:%M:%SZ'')),
          (''bounding_box[]'', PStr (str west @ '','' @ str south @ '','' @ str east @ '','' @ str north))]))
   \<and> (\<forall>c \<in> set (sent (state_of (search_polygon fuel http_post nonzero float concept_id
                      (temporal_str strftime start_date end_date) polygon_json))).
      url c = cmrurl @ ''granules.json'' \<and>
      files c = [(''shapefile'', (''isla_gaviota.geojson'', polygon_json, ''application/geo+json''))] \<and>
      (\<exists>n \<ge> 1. data c =
         [(''collection_concept_id'', PJson concept_id),
          (''page_size'', PInt 2000),
          (''page_num'', PInt n),
          (''temporal'', PStr (strftime start_date ''%Y-%m-%dT%H:%M:%SZ'' @ '','' @
                               strftime end_date ''%Y-%m-%dT%H:%M:%SZ'')),
          (''simplify-shapefile'', PStr ''true'')]))"
proof (intro conjI; rule ballI)
  fix c
  assume "c \<in> set (sent (state_of (search_point fuel http_post nonzero float concept_id
                      (temporal_str strftime start_date end_date) (point_str str lon lat))))"
  then obtain n where "n \<ge> 1"
    "c = cmr_call_point concept_id (temporal_str strftime start_date end_date) (point_str str lon lat) n"
    unfolding search_point_def by (blast dest: search_sent_calls)
  then show "url c = cmrurl @ ''granules.json'' \<and> files c = [] \<and>
      (\<exists>n \<ge> 1. data c =
         [(''collection_concept_id'', PJson concept_id),
          (''page_size'', PInt 2000),
          (''page_num'', PInt n),
          (''temporal'', PStr (strftime start_date ''%Y-%m-%dT%H:%M:%SZ'' @ '','' @
                               strftime end_date ''%Y-%m-%dT%H:%M:%SZ'')),
          (''point'', PStr (str lon @ '','' @ str lat))])"
    by (auto simp: cmr_call_point_def cmr_param_point_def granulesearch_def page_size_def
        temporal_str_def dt_format_def point_str_def)
next
  fix c
  assume "c \<in> set (sent (state_of (search_bbox fuel http_post nonzero float concept_id
                      (temporal_str strftime start_date end_date)
                      (bound_str str [west, south, east, north]))))"
  then obtain n where "n \<ge> 1"
    "c = cmr_call_bbox concept_id (temporal_str strftime start_date end_date)
           (bound_str str [west, south, east, north]) n"
    unfolding search_bbox_def by (blast dest: search_sent_calls)
  then show "url c = cmrurl @ ''granules.json'' \<and> files c = [] \<and>
      (\<exists>n \<ge> 1. data c =
         [(''collection_concept_id'', PJson concept_id),
          (''page_size'', PInt 2000),
          (''page_num'', PInt n),
          (''temporal'', PStr (strftime start_date ''%Y-%m-%dT%H:%M:%SZ'' @ '','' @
                               strftime end_date ''%Y-%m-%dT%H:%M:%SZ'')),
          (''bounding_box[]'', PStr (str west @ '','' @ str south @ '','' @ str east @ '','' @ str north))])"
    by (auto simp: cmr_call_bbox_def cmr_param_bbox_def granulesearch_def page_size_def
        temporal_str_def dt_format_def bound_str_four)
next
  fix c
  assume "c \<in> set (sent (state_of (search_polygon fuel http_post nonzero float concept_id
                      (temporal_str strftime start_date end_date) polygon_json)))"
  then obtain n where "n \<ge> 1"
    "c = cmr_call_polygon concept_id (temporal_str strftime start_date end_date) polygon_json n"
    unfolding search_polygon_def by (blast dest: search_sent_calls)
  then show "url c = cmrurl @ ''granules.json'' \<and>
      files c = [(''shapefile'', (''isla_gaviota.geojson'', polygon_json, ''application/geo+json''))] \<and>
      (\<exists>n \<ge> 1. data c =
         [(''collection_concept_id'', PJson concept_id),
          (''page_size'', PInt 2000),
          (''page_num'', PInt n),
          (''temporal'', PStr (strftime start_date ''%Y-%m-%dT%H:%M:%SZ'' @ '','' @
                               strftime end_date ''%Y-%m-%dT%H:%M:%SZ'')),
          (''simplify-shapefile'', PStr ''true'')])"
    by (auto simp: cmr_call_polygon_def cmr_param_polygon_def granulesearch_def page_size_def
        temporal_str_def dt_format_def geojson_def)
qed

text \<open>The first call of each search on the example endpoint, with the dates, the point
  and the bounding box of the notebook.\<close>

theorem granule_requests_parameters_witness:
  "(\<exists>n \<ge> 1. data (hd (sent (state_of (search_point 7 example_post (\<lambda>n. n \<noteq> 0) Inr (JStr ''C1'')
        (temporal_str example_strftime example_start_date example_end_date)
        (point_str (\<lambda>s. s) ''-62.1123'' ''-39.89402''))))) =
      [(''collection_concept_id'', PJson (JStr ''C1'')),
       (''page_size'', PInt 2000),
       (''page_num'', PInt n),
       (''temporal'', PStr ''2022-09-03T00:00:00Z,2022-09-03T23:23:59Z''),
       (''point'', PStr ''-62.1123,-39.89402'')])
   \<and> (\<exists>n \<ge> 1. data (hd (sent (state_of (search_bbox 7 example_post (\<lambda>n. n \<noteq> 0) Inr (JStr ''C1'')
        (temporal_str example_strftime example_start_date example_end_date)
        (bound_str (\<lambda>s. s) [''-62.1123'', ''-39.89402'', ''-61.70801'', ''-39.57769'']))))) =
      [(''collection_concept_id'', PJson (JStr ''C1'')),
       (''page_size'', PInt 2000),
       (''page_num'', PInt n),
       (''temporal'', PStr ''2022-09-03T00:00:00Z,2022-09-03T23:23:59Z''),
       (''bounding_box[]'', PStr ''-62.1123,-39.89402,-61.70801,-39.57769'')])
   \<and> files (hd (sent (state_of (search_polygon 7 example_post (\<lambda>n. n \<noteq> 0) Inr (JStr ''C1'')
        (temporal_str example_strftime example_start_date example_end_date) ''{}''))))
      = [(''shapefile'', (''isla_gaviota.geojson'', ''{}'', ''application/geo+json''))]"
proof -
  let ?t = "temporal_str example_strftime example_start_date example_end_date"
  let ?P = "search_point 7 example_post (\<lambda>n. n \<noteq> 0) Inr (JStr ''C1'') ?t
              (point_str (\<lambda>s. s) ''-62.1123'' ''-39.89402'')
            :: (nat, string) search_state outcome"
  let ?B = "search_bbox 7 example_post (\<lambda>n. n \<noteq> 0) Inr (JStr ''C1'') ?t
              (bound_str (\<lambda>s. s) [''-62.1123'', ''-39.89402'', ''-61.70801'', ''-39.57769''])
            :: (nat, string) search_state outcome"
  let ?G = "search_polygon 7 example_post (\<lambda>n. n \<noteq> 0) Inr (JStr ''C1'') ?t ''{}''
            :: (nat, string) search_state outcome"
  have t: "example_strftime example_start_date ''%Y-%m-%dT%H:%M:%SZ'' = ''2022-09-03T00:00:00Z''"
    "example_strftime example_end_date ''%Y-%m-%dT%H:%M:%SZ'' = ''2022-09-03T23:23:59Z''"
    by code_simp+
  have p: "sent (state_of ?P) \<noteq> []" by code_simp
  have b: "sent (state_of ?B) \<noteq> []" by code_simp
  have g: "sent (state_of ?G) \<noteq> []" by code_simp
  note inst = granule_requests_parameters [of 7 example_post "\<lambda>n. n \<noteq> 0" Inr "JStr ''C1''"
      example_strftime example_start_date example_end_date "\<lambda>s. s" "''-62.1123''" "''-39.89402''"
      "''-62.1123''" "''-39.89402''" "''-61.70801''" "''-39.57769''" "''{}''"]
  from inst p have "\<exists>n \<ge> 1. data (hd (sent (state_of ?P))) =
      [(''collection_concept_id'', PJson (JStr ''C1'')),
       (''page_size'', PInt 2000),
       (''page_num'', PInt n),
       (''temporal'', PStr (example_strftime example_start_date ''%Y-%m-%dT%H:%M:%SZ'' @ '','' @
                            example_strftime example_end_date ''%Y-%m-%dT%H:%M:%SZ'')),
       (''point'', PStr (''-62.1123'' @ '','' @ ''-39.89402''))]"
    by (meson hd_in_set)
  moreover from inst b have "\<exists>n \<ge> 1. data (hd (sent (state_of ?B))) =
      [(''collection_concept_id'', PJson (JStr ''C1'')),
       (''page_size'', PInt 2000),
       (''page_num'', PInt n),
       (''temporal'', PStr (example_strftime example_start_date ''%Y-%m-%dT%H:%M:%SZ'' @ '','' @
                            example_strftime example_end_date ''%Y-%m-%dT%H:%M:%SZ'')),
       (''bounding_box[]'', PStr (''-62.1123'' @ '','' @ ''-39.89402'' @ '','' @ ''-61.70801'' @ '','' @ ''-39.57769''))]"
    by (meson hd_in_set)
  moreover from inst g have "files (hd (sent (state_of ?G)))
      = [(''shapefile'', (''isla_gaviota.geojson'', ''{}'', ''application/geo+json''))]"
    by (meson hd_in_set)
  ultimately show ?thesis unfolding t by simp
qed

section \<open>The rows of the results list\<close>

lemma parse_granule_fields:
  "parse_granule float g = Inr row \<Longrightarrow>
     \<exists>granule_urls cloud_cover granule_poly.
        row = (granule_urls, cloud_cover, granule_poly) \<and>
        read_urls g = Inr granule_urls \<and>
        py_getitem g ''cloud_cover'' = Inr cloud_cover \<and>
        read_polygons float g = Inr granule_poly"
  by (auto simp: parse_granule_def ebind_eq_Inr)

lemma parse_granule_titled_fields:
  "parse_granule_titled float g = Inr row \<Longrightarrow> parse_granule float g = Inr row"
  by (auto simp: parse_granule_titled_def ebind_eq_Inr)

lemma DataFrame_rows: "map snd (DataFrame rows) = rows"
  by (simp add: DataFrame_def)

text \<open>
  Claim C6. At every moment of a search (whatever the fuel, and also when the cell ends
  in an exception), every element of \<open>granule_arr\<close> is a triple (URL list, cloud cover,
  geometry), in this order, made from one entry \<open>g\<close> of a page that one of the calls
  fetched: the URL list is the kept links of \<open>g\<close>, the cloud cover is \<open>g['cloud_cover']\<close>
  as it was decoded, the geometry is the one read from \<open>g\<close>. The rows of the data frame
  built from the list are these triples.
\<close>

theorem appended_rows_are_triples:
  fixes parse :: "'a json \<Rightarrow> pyerror + ('a, 'b) granule_row"
  assumes "parse = parse_granule float \<or> parse = parse_granule_titled float"
  shows "(\<forall>row \<in> set (granule_arr (state_of (search_loop fuel http_post nonzero cmr_call parse search_start))).
            \<exists>c \<in> set (sent (state_of (search_loop fuel http_post nonzero cmr_call parse search_start))).
            \<exists>gs g granule_urls cloud_cover granule_poly.
               ebind (fetch_entry http_post c) py_iter = Inr gs \<and> g \<in> set gs \<and>
               row = (granule_urls, cloud_cover, granule_poly) \<and>
               read_urls g = Inr granule_urls \<and>
               py_getitem g ''cloud_cover'' = Inr cloud_cover \<and>
               read_polygons float g = Inr granule_poly)
         \<and> map snd (DataFrame (granule_arr (state_of
               (search_loop fuel http_post nonzero cmr_call parse search_start))))
             = granule_arr (state_of (search_loop fuel http_post nonzero cmr_call parse search_start))"
proof (intro conjI ballI)
  let ?r = "state_of (search_loop fuel http_post nonzero cmr_call parse search_start)"
  fix row assume row: "row \<in> set (granule_arr ?r)"
  from search_loop_from_start [of fuel http_post nonzero cmr_call parse] obtain m where
    s: "sent ?r = map cmr_call [1..int m]"
    and r: "\<forall>row \<in> set (granule_arr ?r).
          \<exists>k \<in> {1..int m}. \<exists>gs g. ebind (fetch_entry http_post (cmr_call k)) py_iter = Inr gs
             \<and> g \<in> set gs \<and> parse g = Inr row"
    by blast
  from r row obtain k gs g where k: "k \<in> {1..int m}"
    and g: "ebind (fetch_entry http_post (cmr_call k)) py_iter = Inr gs" "g \<in> set gs"
    and p: "parse g = Inr row"
    by blast
  from p assms have "parse_granule float g = Inr row"
    by (auto dest: parse_granule_titled_fields)
  from parse_granule_fields [OF this] obtain granule_urls cloud_cover granule_poly where
    f: "row = (granule_urls, cloud_cover, granule_poly)" "read_urls g = Inr granule_urls"
       "py_getitem g ''cloud_cover'' = Inr cloud_cover" "read_polygons float g = Inr granule_poly"
    by blast
  from k s have "cmr_call k \<in> set (sent ?r)" by simp
  with g f show "\<exists>c \<in> set (sent ?r).
            \<exists>gs g granule_urls cloud_cover granule_poly.
               ebind (fetch_entry http_post c) py_iter = Inr gs \<and> g \<in> set gs \<and>
               row = (granule_urls, cloud_cover, granule_poly) \<and>
               read_urls g = Inr granule_urls \<and>
               py_getitem g ''cloud_cover'' = Inr cloud_cover \<and>
               read_polygons float g = Inr granule_poly"
    by blast
next
  show "map snd (DataFrame (granule_arr (state_of
               (search_loop fuel http_post nonzero cmr_call parse search_start))))
             = granule_arr (state_of (search_loop fuel http_post nonzero cmr_call parse search_start))"
    by (rule DataFrame_rows)
qed

theorem appended_rows_are_triples_witness:
  "(\<exists>c gs g granule_urls granule_poly.
       c \<in> set (sent (state_of (search_point 7 example_post (\<lambda>n. n \<noteq> 0) Inr (JStr ''C1'') ''t'' ''p''))) \<and>
       ebind (fetch_entry example_post c) py_iter = Inr gs \<and> g \<in> set gs \<and>
       example_row_1 = (granule_urls, JStr ''82'', granule_poly) \<and>
       read_urls g = Inr granule_urls \<and>
       py_getitem g ''cloud_cover'' = Inr (JStr ''82'') \<and>
       read_polygons Inr g = Inr granule_poly)
   \<and> map snd (DataFrame (granule_arr (state_of
         (search_point 7 example_post (\<lambda>n. n \<noteq> 0) Inr (JStr ''C1'') ''t'' ''p''))))
      = [example_row_1, example_row_2]"
proof -
  let ?r = "state_of (search_point 7 example_post (\<lambda>n. n \<noteq> 0) Inr (JStr ''C1'') ''t'' ''p'')
            :: (nat, string) search_state"
  have arr: "granule_arr ?r = [example_row_1, example_row_2]"
    by code_simp
  note inst = appended_rows_are_triples [of "parse_granule Inr" Inr 7 example_post "\<lambda>n. n \<noteq> 0"
      "cmr_call_point (JStr ''C1'') ''t'' ''p''", folded search_point_def]
  have mem: "example_row_1 \<in> set (granule_arr ?r)"
    unfolding arr by simp
  from inst mem obtain c gs g granule_urls cloud_cover granule_poly where
    o: "c \<in> set (sent ?r)" "ebind (fetch_entry example_post c) py_iter = Inr gs" "g \<in> set gs"
    "example_row_1 = (granule_urls, cloud_cover, granule_poly)"
    "read_urls g = Inr granule_urls" "py_getitem g ''cloud_cover'' = Inr cloud_cover"
    "read_polygons Inr g = Inr granule_poly"
    by blast
  from o(4) have "cloud_cover = JStr ''82''"
    by (simp add: example_row_1_def)
  with o have first: "\<exists>c gs g granule_urls granule_poly.
       c \<in> set (sent ?r) \<and>
       ebind (fetch_entry example_post c) py_iter = Inr gs \<and> g \<in> set gs \<and>
       example_row_1 = (granule_urls, JStr ''82'', granule_poly) \<and>
       read_urls g = Inr granule_urls \<and>
       py_getitem g ''cloud_cover'' = Inr (JStr ''82'') \<and>
       read_polygons Inr g = Inr granule_poly"
    by blast
  from inst have "map snd (DataFrame (granule_arr ?r)) = granule_arr ?r"
    by blast
  then have "map snd (DataFrame (granule_arr ?r)) = [example_row_1, example_row_2]"
    unfolding arr .
  with first show ?thesis by (rule conjI)
qed

section \<open>The table of results and the text file: what is written\<close>

text \<open>\<open>str_contains\<close> is the substring test.\<close>

lemma str_contains_sublist: "str_contains p s \<longleftrightarrow> sublist p s"
  by (induction s) (auto simp: sublist_Cons_right)

lemma or_mask_names:
  "or_mask (str_contains_cell ''_RFL_'' n) (str_contains_cell ''MASK'' n) = name_has_rfl_or_mask n"
  by (cases n) (simp_all add: or_mask_def str_contains_cell_def name_has_rfl_or_mask_def)

lemma str_contains_nonempty: "str_contains p s \<Longrightarrow> p \<noteq> [] \<Longrightarrow> s \<noteq> []"
  by (cases s) auto

lemma last_split_on_nonempty: "last (split_on c s) \<noteq> [] \<Longrightarrow> s \<noteq> []"
  by (cases s) auto

lemma csv_field_nonempty: "s \<noteq> [] \<Longrightarrow> csv_field lt q s \<noteq> []"
  by (simp add: csv_field_def)

lemma writerow_one: "s \<noteq> [] \<Longrightarrow> writerow lt q [s] = csv_field lt q s @ lt"
  by (simp add: writerow_def csv_field_nonempty)

lemma csv_field_plain: "\<not> needs_quotes lt q s \<Longrightarrow> csv_field lt q s = s"
  by (simp add: csv_field_def)

lemma csv_field_quoted: "needs_quotes lt q s \<Longrightarrow> csv_field lt q s \<noteq> s"
proof
  assume q: "needs_quotes lt q s" and e: "csv_field lt q s = s"
  have "length (concat (map (\<lambda>c. if c = CHR 0x22 then [c, c] else [c]) s)) \<ge> length s"
    by (induction s) auto
  with q have "length (csv_field lt q s) > length s"
    by (simp add: csv_field_def)
  with e show False by simp
qed

lemma written_text:
  "emit_asset_urls_txt (write_asset_urls lt q str arr)
     = Some (concat (map (\<lambda>(i, asset_name, asset_url, rest). writerow lt q [cell_text str asset_url])
          (filter (\<lambda>(i, asset_name, asset_url, rest). name_has_rfl_or_mask asset_name)
             (results_table arr))))"
  by (simp add: write_asset_urls_def save_asset_urls_def to_csv_asset_url_def keep_rfl_and_mask_def
      or_mask_names split_def)

lemma map_err_member:
  "map_err f xs = Inr ys \<Longrightarrow> y \<in> set ys \<Longrightarrow> \<exists>x \<in> set xs. f x = Inr y"
  by (induction xs arbitrary: ys) (auto split: sum.splits)

lemma DataFrame_set: "(i, r) \<in> set (DataFrame rows) \<Longrightarrow> r \<in> set rows"
  by (auto simp: DataFrame_def dest: set_zip_rightD)

lemma results_table_rows:
  assumes "(i, asset_name, asset_url, cloud_cover, granule_poly) \<in> set (results_table arr)"
  shows "asset_name = str_split_get_last asset_url"
    and "granule_poly \<noteq> EmptyStr"
    and "\<exists>granule_urls. (granule_urls, cloud_cover, granule_poly) \<in> set arr \<and>
            (case asset_url of None \<Rightarrow> granule_urls = [] | Some h \<Rightarrow> h \<in> set granule_urls)"
  using assms
  by (auto simp: results_table_def insert_asset_name_def explode_def drop_empty_geometry_def
      split: if_splits dest: DataFrame_set)

lemma str_split_get_last_Some:
  "str_split_get_last c = Some s \<Longrightarrow> \<exists>u. c = Some (JStr u) \<and> s = last (split_on CHR ''/'' u)"
  by (cases c rule: str_split_get_last.cases) auto

lemma keep_link_True:
  "keep_link x = Inr True \<Longrightarrow>
     \<exists>h. py_getitem x ''href'' = Inr h \<and> py_in ''https'' h = Inr True \<and>
         py_in ''.nc'' h = Inr True \<and> py_in ''.dmrpp'' h = Inr False"
  by (auto simp: keep_link_def ebind_eq_Inr split: if_splits)

lemma hrefs_kept_member:
  "hrefs_kept xs = Inr hs \<Longrightarrow> h \<in> set hs \<Longrightarrow>
     \<exists>x \<in> set xs. keep_link x = Inr True \<and> py_getitem x ''href'' = Inr h"
proof (induction xs arbitrary: hs)
  case Nil
  then show ?case by simp
next
  case (Cons x xs)
  from Cons.prems(1) obtain keep where keep: "keep_link x = Inr keep"
    by (auto simp: ebind_eq_Inr)
  show ?case
  proof (cases keep)
    case True
    with Cons.prems(1) keep obtain h0 hs0 where
      h0: "py_getitem x ''href'' = Inr h0" "hrefs_kept xs = Inr hs0" "hs = h0 # hs0"
      by (auto simp: ebind_eq_Inr)
    show ?thesis
    proof (cases "h = h0")
      case True
      with keep \<open>keep\<close> h0 show ?thesis by auto
    next
      case False
      with Cons.prems(2) h0 have "h \<in> set hs0" by simp
      from Cons.IH [OF h0(2) this] show ?thesis by auto
    qed
  next
    case False
    with Cons.prems(1) keep have "hrefs_kept xs = Inr hs" by simp
    from Cons.IH [OF this Cons.prems(2)] show ?thesis by auto
  qed
qed

lemma read_urls_member:
  assumes "read_urls g = Inr granule_urls" "h \<in> set granule_urls"
  shows "\<exists>links x. ebind (py_getitem g ''links'') py_iter = Inr links \<and> x \<in> set links \<and>
           py_getitem x ''href'' = Inr h \<and> py_in ''https'' h = Inr True \<and>
           py_in ''.nc'' h = Inr True \<and> py_in ''.dmrpp'' h = Inr False"
proof -
  from assms(1) obtain links where l: "ebind (py_getitem g ''links'') py_iter = Inr links"
    "hrefs_kept links = Inr granule_urls"
    by (auto simp: read_urls_def ebind_eq_Inr)
  from hrefs_kept_member [OF l(2) assms(2)] obtain x where
    x: "x \<in> set links" "keep_link x = Inr True" "py_getitem x ''href'' = Inr h" by blast
  from keep_link_True [OF x(2)] x(3) have "py_in ''https'' h = Inr True \<and>
         py_in ''.nc'' h = Inr True \<and> py_in ''.dmrpp'' h = Inr False" by auto
  with l(1) x show ?thesis by blast
qed

text \<open>A row that the filter on the asset name keeps has a string as its URL, and the
  string is not empty.\<close>

lemma kept_row_url:
  assumes row: "(i, asset_name, asset_url, cloud_cover, granule_poly) \<in> set (results_table arr)"
    and keep: "name_has_rfl_or_mask asset_name"
  shows "\<exists>u. asset_url = Some (JStr u) \<and> asset_name = Some (last (split_on CHR ''/'' u)) \<and>
           u \<noteq> [] \<and>
           (str_contains ''_RFL_'' (last (split_on CHR ''/'' u)) \<or>
            str_contains ''MASK'' (last (split_on CHR ''/'' u)))"
proof -
  from keep obtain s where s: "asset_name = Some s"
    and c: "str_contains ''_RFL_'' s \<or> str_contains ''MASK'' s"
    by (cases asset_name) (simp_all add: name_has_rfl_or_mask_def)
  with results_table_rows(1) [OF row] have "str_split_get_last asset_url = Some s"
    by simp
  from str_split_get_last_Some [OF this] obtain u where
    u: "asset_url = Some (JStr u)" "s = last (split_on CHR ''/'' u)"
    by blast
  from c have "s \<noteq> []"
    by (auto dest: str_contains_nonempty)
  with u(2) have "u \<noteq> []"
    by (auto dest: last_split_on_nonempty)
  with s c u show ?thesis by blast
qed

text \<open>The URL of a row of the table is a kept link of one of the granules the rows
  were made from.\<close>

lemma table_url_is_link:
  assumes parsed: "map_err (parse_granule float) gs = Inr arr \<or>
                   map_err (parse_granule_titled float) gs = Inr arr"
    and row: "(i, asset_name, Some h, cloud_cover, granule_poly) \<in> set (results_table arr)"
  shows "\<exists>g \<in> set gs. \<exists>links x. ebind (py_getitem g ''links'') py_iter = Inr links \<and>
           x \<in> set links \<and> py_getitem x ''href'' = Inr h \<and> py_in ''https'' h = Inr True \<and>
           py_in ''.nc'' h = Inr True \<and> py_in ''.dmrpp'' h = Inr False"
proof -
  from results_table_rows(3) [OF row] obtain granule_urls where
    r: "(granule_urls, cloud_cover, granule_poly) \<in> set arr" and h: "h \<in> set granule_urls"
    by auto
  from parsed r obtain g where g: "g \<in> set gs"
    and p: "parse_granule float g = Inr (granule_urls, cloud_cover, granule_poly)"
    by (blast dest: map_err_member parse_granule_titled_fields)
  from parse_granule_fields [OF p] have "read_urls g = Inr granule_urls"
    by auto
  from read_urls_member [OF this h] g show ?thesis
    by blast
qed

text \<open>
  Claim C2, with the condition it needs. Let \<open>arr\<close> be the rows made from the granules
  \<open>gs\<close> of a search. The rows of the results table whose asset name contains \<open>_RFL_\<close>
  or \<open>MASK\<close> all have a string as \<open>asset_url\<close>; let \<open>urls\<close> be these strings in table
  order. The file is, for each of them in this order, the URL as the CSV writer writes
  one field, followed by the line terminator, and nothing else (no header, no index).
  When no URL holds a comma, a double quote or a line-break character (one of the line
  terminator, and for the newer writers a carriage return or a line feed), each line is
  the URL itself. Every such URL has a last \<open>/\<close>-separated piece that contains
  \<open>_RFL_\<close> or \<open>MASK\<close>, contains \<open>https\<close> and \<open>.nc\<close> and not \<open>.dmrpp\<close>, and is the
  \<open>href\<close> of a link of one of the granules; and in every row of the results table the
  asset name is the last \<open>/\<close>-separated piece of the URL (missing when the URL is no
  string).
\<close>

theorem asset_urls_file_contents:
  assumes parsed: "map_err (parse_granule float) gs = Inr arr \<or>
                   map_err (parse_granule_titled float) gs = Inr arr"
  shows "\<exists>urls.
           map (\<lambda>(i, asset_name, asset_url, rest). asset_url)
               (filter (\<lambda>(i, asset_name, asset_url, rest). name_has_rfl_or_mask asset_name)
                  (results_table arr))
             = map (\<lambda>u. Some (JStr u)) urls
         \<and> emit_asset_urls_txt (write_asset_urls lt q str arr)
             = Some (concat (map (\<lambda>u. csv_field lt q u @ lt) urls))
         \<and> ((\<forall>u \<in> set urls. \<not> needs_quotes lt q u) \<longrightarrow>
              emit_asset_urls_txt (write_asset_urls lt q str arr)
                = Some (concat (map (\<lambda>u. u @ lt) urls)))
         \<and> (\<forall>u \<in> set urls.
               (str_contains ''_RFL_'' (last (split_on CHR ''/'' u)) \<or>
                str_contains ''MASK'' (last (split_on CHR ''/'' u))) \<and>
               str_contains ''https'' u \<and> str_contains ''.nc'' u \<and> \<not> str_contains ''.dmrpp'' u \<and>
               (\<exists>g \<in> set gs. \<exists>links x. ebind (py_getitem g ''links'') py_iter = Inr links \<and>
                  x \<in> set links \<and> py_getitem x ''href'' = Inr (JStr u)))
         \<and> (\<forall>(i, asset_name, asset_url, rest) \<in> set (results_table arr).
               asset_name = str_split_get_last asset_url)"
proof -
  let ?kept = "filter (\<lambda>(i, asset_name, asset_url, rest). name_has_rfl_or_mask asset_name)
                 (results_table arr)"
  define urls where
    "urls = map (\<lambda>(i, asset_name, asset_url, rest). case asset_url of Some (JStr u) \<Rightarrow> u | _ \<Rightarrow> [])
              ?kept"
  have kept: "\<exists>u. asset_url = Some (JStr u) \<and> asset_name = Some (last (split_on CHR ''/'' u)) \<and>
           u \<noteq> [] \<and>
           (str_contains ''_RFL_'' (last (split_on CHR ''/'' u)) \<or>
            str_contains ''MASK'' (last (split_on CHR ''/'' u)))"
    if "(i, asset_name, asset_url, cloud_cover, granule_poly) \<in> set ?kept"
    for i asset_name asset_url cloud_cover granule_poly
    using that kept_row_url [of i asset_name asset_url cloud_cover granule_poly arr] by simp
  have col: "map (\<lambda>(i, asset_name, asset_url, rest). asset_url) ?kept
               = map (\<lambda>u. Some (JStr u)) urls"
    unfolding urls_def map_map
  proof (rule map_cong [OF refl])
    fix r assume r: "r \<in> set ?kept"
    obtain i asset_name asset_url cloud_cover granule_poly where
      e: "r = (i, asset_name, asset_url, cloud_cover, granule_poly)"
      by (cases r) auto
    from kept [of i asset_name asset_url cloud_cover granule_poly] r e
    obtain u where "asset_url = Some (JStr u)" by blast
    then show "(case r of (i, asset_name, asset_url, rest) \<Rightarrow> asset_url)
        = ((\<lambda>u. Some (JStr u)) \<circ>
           (\<lambda>(i, asset_name, asset_url, rest). case asset_url of Some (JStr u) \<Rightarrow> u | _ \<Rightarrow> [])) r"
      by (simp add: e)
  qed
  have rows: "map (\<lambda>(i, asset_name, asset_url, rest). writerow lt q [cell_text str asset_url]) ?kept
                = map (\<lambda>u. csv_field lt q u @ lt) urls"
    unfolding urls_def map_map
  proof (rule map_cong [OF refl])
    fix r assume r: "r \<in> set ?kept"
    obtain i asset_name asset_url cloud_cover granule_poly where
      e: "r = (i, asset_name, asset_url, cloud_cover, granule_poly)"
      by (cases r) auto
    from kept [of i asset_name asset_url cloud_cover granule_poly] r e
    obtain u where "asset_url = Some (JStr u)" "u \<noteq> []" by blast
    then show "(case r of (i, asset_name, asset_url, rest) \<Rightarrow> writerow lt q [cell_text str asset_url])
        = ((\<lambda>u. csv_field lt q u @ lt) \<circ>
           (\<lambda>(i, asset_name, asset_url, rest). case asset_url of Some (JStr u) \<Rightarrow> u | _ \<Rightarrow> [])) r"
      by (simp add: e writerow_one)
  qed
  have out: "emit_asset_urls_txt (write_asset_urls lt q str arr)
             = Some (concat (map (\<lambda>u. csv_field lt q u @ lt) urls))"
    unfolding written_text rows ..
  have plain: "emit_asset_urls_txt (write_asset_urls lt q str arr)
                = Some (concat (map (\<lambda>u. u @ lt) urls))"
    if "\<forall>u \<in> set urls. \<not> needs_quotes lt q u"
  proof -
    have "map (\<lambda>u. csv_field lt q u @ lt) urls = map (\<lambda>u. u @ lt) urls"
      using that by (simp add: csv_field_plain)
    with out show ?thesis by simp
  qed
  have each: "(str_contains ''_RFL_'' (last (split_on CHR ''/'' u)) \<or>
                str_contains ''MASK'' (last (split_on CHR ''/'' u))) \<and>
               str_contains ''https'' u \<and> str_contains ''.nc'' u \<and> \<not> str_contains ''.dmrpp'' u \<and>
               (\<exists>g \<in> set gs. \<exists>links x. ebind (py_getitem g ''links'') py_iter = Inr links \<and>
                  x \<in> set links \<and> py_getitem x ''href'' = Inr (JStr u))"
    if "u \<in> set urls" for u
  proof -
    from that have "Some (JStr u) \<in> set (map (\<lambda>(i, asset_name, asset_url, rest). asset_url) ?kept)"
      unfolding col by simp
    then obtain i asset_name cloud_cover granule_poly where
      r: "(i, asset_name, Some (JStr u), cloud_cover, granule_poly) \<in> set ?kept"
      by auto
    from kept [OF r] have c: "str_contains ''_RFL_'' (last (split_on CHR ''/'' u)) \<or>
            str_contains ''MASK'' (last (split_on CHR ''/'' u))"
      by auto
    from r have "(i, asset_name, Some (JStr u), cloud_cover, granule_poly) \<in> set (results_table arr)"
      by simp
    from table_url_is_link [OF parsed this] obtain g links x where
      "g \<in> set gs" "ebind (py_getitem g ''links'') py_iter = Inr links" "x \<in> set links"
      "py_getitem x ''href'' = Inr (JStr u)" "py_in ''https'' (JStr u :: 'a json) = Inr True"
      "py_in ''.nc'' (JStr u :: 'a json) = Inr True" "py_in ''.dmrpp'' (JStr u :: 'a json) = Inr False"
      by blast
    with c show ?thesis by auto
  qed
  have names: "\<forall>(i, asset_name, asset_url, rest) \<in> set (results_table arr).
               asset_name = str_split_get_last asset_url"
    by (auto dest: results_table_rows(1))
  from plain have p: "(\<forall>u \<in> set urls. \<not> needs_quotes lt q u) \<longrightarrow>
              emit_asset_urls_txt (write_asset_urls lt q str arr)
                = Some (concat (map (\<lambda>u. u @ lt) urls))"
    by blast
  from each have e: "\<forall>u \<in> set urls.
               (str_contains ''_RFL_'' (last (split_on CHR ''/'' u)) \<or>
                str_contains ''MASK'' (last (split_on CHR ''/'' u))) \<and>
               str_contains ''https'' u \<and> str_contains ''.nc'' u \<and> \<not> str_contains ''.dmrpp'' u \<and>
               (\<exists>g \<in> set gs. \<exists>links x. ebind (py_getitem g ''links'') py_iter = Inr links \<and>
                  x \<in> set links \<and> py_getitem x ''href'' = Inr (JStr u))"
    by blast
  from col out p e names show ?thesis
    by (intro exI [of _ urls] conjI)
qed

theorem asset_urls_file_contents_witness:
  "emit_asset_urls_txt (write_asset_urls [CHR 0x0A] True (\<lambda>v. [])
       [example_row_1, example_row_2, example_row_3, example_row_4])
     = Some (''https://d/E_RFL_1.nc'' @ [CHR 0x0A] @ ''https://d/E_MASK_1.nc'' @ [CHR 0x0A])
   \<and> str_contains ''MASK'' (last (split_on CHR ''/'' ''https://d/E_MASK_1.nc''))
   \<and> str_contains ''https'' ''https://d/E_MASK_1.nc''
   \<and> str_contains ''.nc'' ''https://d/E_MASK_1.nc''
   \<and> \<not> str_contains ''.dmrpp'' ''https://d/E_MASK_1.nc''
   \<and> (\<exists>g links x.
         g \<in> set [example_granule_1, example_granule_2, example_granule_3, example_granule_4] \<and>
         ebind (py_getitem g ''links'') py_iter = Inr links \<and> x \<in> set links \<and>
         py_getitem x ''href'' = Inr (JStr ''https://d/E_MASK_1.nc''))"
proof -
  let ?arr = "[example_row_1, example_row_2, example_row_3, example_row_4]"
  let ?gs = "[example_granule_1, example_granule_2, example_granule_3, example_granule_4]"
  let ?lt = "[CHR 0x0A]"
  let ?str = "\<lambda>v :: nat json. [] :: string"
  have parsed: "map_err (parse_granule Inr) ?gs = Inr ?arr \<or>
                map_err (parse_granule_titled Inr) ?gs = Inr ?arr"
    by code_simp
  have table: "map (\<lambda>(i, asset_name, asset_url, rest). asset_url)
          (filter (\<lambda>(i, asset_name, asset_url, rest). name_has_rfl_or_mask asset_name)
             (results_table ?arr))
        = map (\<lambda>u. Some (JStr u)) [''https://d/E_RFL_1.nc'', ''https://d/E_MASK_1.nc'']"
    by code_simp
  from asset_urls_file_contents [OF parsed, of ?lt True ?str] obtain urls where
    col: "map (\<lambda>(i, asset_name, asset_url, rest). asset_url)
               (filter (\<lambda>(i, asset_name, asset_url, rest). name_has_rfl_or_mask asset_name)
                  (results_table ?arr))
             = map (\<lambda>u. Some (JStr u :: nat json)) urls"
    and plain: "(\<forall>u \<in> set urls. \<not> needs_quotes ?lt True u) \<longrightarrow>
              emit_asset_urls_txt (write_asset_urls ?lt True ?str ?arr)
                = Some (concat (map (\<lambda>u. u @ ?lt) urls))"
    and each: "\<forall>u \<in> set urls.
               (str_contains ''_RFL_'' (last (split_on CHR ''/'' u)) \<or>
                str_contains ''MASK'' (last (split_on CHR ''/'' u))) \<and>
               str_contains ''https'' u \<and> str_contains ''.nc'' u \<and> \<not> str_contains ''.dmrpp'' u \<and>
               (\<exists>g \<in> set ?gs. \<exists>links x. ebind (py_getitem g ''links'') py_iter = Inr links \<and>
                  x \<in> set links \<and> py_getitem x ''href'' = Inr (JStr u :: nat json))"
    by blast
  from col have "map (\<lambda>u. Some (JStr u :: nat json)) urls
      = map (\<lambda>u. Some (JStr u)) [''https://d/E_RFL_1.nc'', ''https://d/E_MASK_1.nc'']"
    unfolding table by simp
  then have urls: "urls = [''https://d/E_RFL_1.nc'', ''https://d/E_MASK_1.nc'']"
    by (rule map_injective) (simp add: inj_on_def)
  have nq: "\<forall>u \<in> set urls. \<not> needs_quotes ?lt True u"
    unfolding urls by code_simp
  from plain nq have 1: "emit_asset_urls_txt (write_asset_urls ?lt True ?str ?arr)
     = Some (''https://d/E_RFL_1.nc'' @ [CHR 0x0A] @ ''https://d/E_MASK_1.nc'' @ [CHR 0x0A])"
    unfolding urls by simp
  have "''https://d/E_MASK_1.nc'' \<in> set urls"
    unfolding urls by simp
  with each have m: "(str_contains ''_RFL_'' (last (split_on CHR ''/'' ''https://d/E_MASK_1.nc'')) \<or>
                str_contains ''MASK'' (last (split_on CHR ''/'' ''https://d/E_MASK_1.nc''))) \<and>
               str_contains ''https'' ''https://d/E_MASK_1.nc'' \<and>
               str_contains ''.nc'' ''https://d/E_MASK_1.nc'' \<and>
               \<not> str_contains ''.dmrpp'' ''https://d/E_MASK_1.nc'' \<and>
               (\<exists>g \<in> set ?gs. \<exists>links x. ebind (py_getitem g ''links'') py_iter = Inr links \<and>
                  x \<in> set links \<and> py_getitem x ''href'' = Inr (JStr ''https://d/E_MASK_1.nc'' :: nat json))"
    by (rule bspec)
  have no: "\<not> str_contains ''_RFL_'' (last (split_on CHR ''/'' ''https://d/E_MASK_1.nc''))"
    by code_simp
  from m no have 2: "str_contains ''MASK'' (last (split_on CHR ''/'' ''https://d/E_MASK_1.nc''))"
    by blast
  from m have 3: "str_contains ''https'' ''https://d/E_MASK_1.nc''"
    and 4: "str_contains ''.nc'' ''https://d/E_MASK_1.nc''"
    and 5: "\<not> str_contains ''.dmrpp'' ''https://d/E_MASK_1.nc''"
    by blast+
  from m have 6: "\<exists>g links x.
         g \<in> set [example_granule_1, example_granule_2, example_granule_3, example_granule_4] \<and>
         ebind (py_getitem g ''links'') py_iter = Inr links \<and> x \<in> set links \<and>
         py_getitem x ''href'' = Inr (JStr ''https://d/E_MASK_1.nc'' :: nat json)"
    by auto
  from 1 2 3 4 5 6 show ?thesis by (intro conjI)
qed

text \<open>
  The claim as the specification words it has the URL itself on each line. A URL with a
  comma in it is written between double quotes.
\<close>

theorem quoted_url_counterexample:
  "parse_granule Inr example_granule_comma = Inr example_row_comma
   \<and> emit_asset_urls_txt (write_asset_urls [CHR 0x0A] True (\<lambda>v. []) [example_row_comma])
       = Some ([CHR 0x22] @ ''https://d/a,b_RFL_1.nc'' @ [CHR 0x22, CHR 0x0A])
   \<and> emit_asset_urls_txt (write_asset_urls [CHR 0x0A] True (\<lambda>v. []) [example_row_comma])
       \<noteq> Some (''https://d/a,b_RFL_1.nc'' @ [CHR 0x0A])"
  by code_simp

section \<open>The step that removes duplicates\<close>

lemma to_csv_text:
  "concat (to_csv_asset_url lt q str df)
     = concat (map (\<lambda>u. writerow lt q [cell_text str u])
         (map (\<lambda>(i, asset_name, asset_url, rest). asset_url) df))"
  by (simp add: to_csv_asset_url_def split_def comp_def)

text \<open>
  Claim C8. The cell binds the table without its last row and without repeated URLs
  to \<open>cmr_results_dfs\<close> and leaves \<open>cmr_results_df\<close> as it was; the file is written from
  \<open>cmr_results_df\<close>. So the file has one written row for every row of the table: it
  ends with the row of the table's last URL, and a URL that stands in two rows of the
  table is written twice, once at the place of each row.
\<close>

theorem duplicates_stay_in_file:
  "cmr_results_df (save_asset_urls lt q str st) = cmr_results_df st
   \<and> cmr_results_dfs (save_asset_urls lt q str st)
       = Some (drop_duplicates (\<lambda>(i, asset_name, asset_url, rest). asset_url)
                 (butlast (cmr_results_df st)))
   \<and> emit_asset_urls_txt (save_asset_urls lt q str st)
       = Some (concat (map (\<lambda>(i, asset_name, asset_url, rest). writerow lt q [cell_text str asset_url])
                 (cmr_results_df st)))
   \<and> (cmr_results_df st \<noteq> [] \<longrightarrow>
        (\<exists>before. the (emit_asset_urls_txt (save_asset_urls lt q str st))
           = before @ writerow lt q [cell_text str (fst (snd (snd (last (cmr_results_df st)))))]))
   \<and> (\<not> distinct (map (\<lambda>(i, asset_name, asset_url, rest). asset_url) (cmr_results_df st)) \<longrightarrow>
        (\<exists>xs u ys zs.
           map (\<lambda>(i, asset_name, asset_url, rest). asset_url) (cmr_results_df st)
             = xs @ [u] @ ys @ [u] @ zs \<and>
           the (emit_asset_urls_txt (save_asset_urls lt q str st))
             = concat (map (\<lambda>v. writerow lt q [cell_text str v]) xs)
               @ writerow lt q [cell_text str u]
               @ concat (map (\<lambda>v. writerow lt q [cell_text str v]) ys)
               @ writerow lt q [cell_text str u]
               @ concat (map (\<lambda>v. writerow lt q [cell_text str v]) zs)))
   \<and> length (to_csv_asset_url lt q str (cmr_results_df st)) = length (cmr_results_df st)"
proof (intro conjI impI)
  let ?urls = "map (\<lambda>(i, asset_name, asset_url, rest). asset_url) (cmr_results_df st)"
  show "cmr_results_df (save_asset_urls lt q str st) = cmr_results_df st"
    by (simp add: save_asset_urls_def)
  show "length (to_csv_asset_url lt q str (cmr_results_df st)) = length (cmr_results_df st)"
    by (simp add: to_csv_asset_url_def)
  show "cmr_results_dfs (save_asset_urls lt q str st)
       = Some (drop_duplicates (\<lambda>(i, asset_name, asset_url, rest). asset_url)
                 (butlast (cmr_results_df st)))"
    by (simp add: save_asset_urls_def)
  show "emit_asset_urls_txt (save_asset_urls lt q str st)
       = Some (concat (map (\<lambda>(i, asset_name, asset_url, rest). writerow lt q [cell_text str asset_url])
                 (cmr_results_df st)))"
    by (simp add: save_asset_urls_def to_csv_asset_url_def)
  have written: "the (emit_asset_urls_txt (save_asset_urls lt q str st))
                   = concat (map (\<lambda>u. writerow lt q [cell_text str u]) ?urls)"
    by (simp add: save_asset_urls_def to_csv_text)
  show "\<exists>before. the (emit_asset_urls_txt (save_asset_urls lt q str st))
           = before @ writerow lt q [cell_text str (fst (snd (snd (last (cmr_results_df st)))))]"
    if ne: "cmr_results_df st \<noteq> []"
  proof -
    from ne obtain rows r where e: "cmr_results_df st = rows @ [r]"
      by (cases "cmr_results_df st" rule: rev_cases) auto
    show ?thesis
      by (rule exI [of _ "concat (map (\<lambda>(i, asset_name, asset_url, rest).
                             writerow lt q [cell_text str asset_url]) rows)"])
        (simp add: save_asset_urls_def to_csv_asset_url_def e split_def)
  qed
  show "\<exists>xs u ys zs. ?urls = xs @ [u] @ ys @ [u] @ zs \<and>
           the (emit_asset_urls_txt (save_asset_urls lt q str st))
             = concat (map (\<lambda>v. writerow lt q [cell_text str v]) xs)
               @ writerow lt q [cell_text str u]
               @ concat (map (\<lambda>v. writerow lt q [cell_text str v]) ys)
               @ writerow lt q [cell_text str u]
               @ concat (map (\<lambda>v. writerow lt q [cell_text str v]) zs)"
    if "\<not> distinct ?urls"
  proof -
    from not_distinct_decomp [OF that] obtain xs ys zs u where
      d: "?urls = xs @ [u] @ ys @ [u] @ zs"
      by blast
    have "concat (map (\<lambda>v. writerow lt q [cell_text str v]) (xs @ [u] @ ys @ [u] @ zs))
        = concat (map (\<lambda>v. writerow lt q [cell_text str v]) xs)
               @ writerow lt q [cell_text str u]
               @ concat (map (\<lambda>v. writerow lt q [cell_text str v]) ys)
               @ writerow lt q [cell_text str u]
               @ concat (map (\<lambda>v. writerow lt q [cell_text str v]) zs)"
      by simp
    with d show ?thesis unfolding written by metis
  qed
qed

theorem duplicates_stay_in_file_witness:
  "emit_asset_urls_txt (save_asset_urls [CHR 0x0A] True (\<lambda>v. [])
       \<lparr>cmr_results_df = example_filtered_df, cmr_results_dfs = None, emit_asset_urls_txt = None\<rparr>)
     = Some (''https://d/E_RFL_1.nc'' @ [CHR 0x0A] @ ''https://d/E_MASK_1.nc'' @ [CHR 0x0A]
             @ ''https://d/E_RFL_1.nc'' @ [CHR 0x0A])
   \<and> cmr_results_dfs (save_asset_urls [CHR 0x0A] True (\<lambda>v. [])
       \<lparr>cmr_results_df = example_filtered_df, cmr_results_dfs = None, emit_asset_urls_txt = None\<rparr>)
     = Some (take 2 example_filtered_df)
   \<and> (\<exists>before. the (emit_asset_urls_txt (save_asset_urls [CHR 0x0A] True (\<lambda>v. [])
       \<lparr>cmr_results_df = example_filtered_df, cmr_results_dfs = None, emit_asset_urls_txt = None\<rparr>))
     = before @ ''https://d/E_RFL_1.nc'' @ [CHR 0x0A])
   \<and> (\<exists>a u b c. the (emit_asset_urls_txt (save_asset_urls [CHR 0x0A] True (\<lambda>v. [])
       \<lparr>cmr_results_df = example_filtered_df, cmr_results_dfs = None, emit_asset_urls_txt = None\<rparr>))
     = a @ writerow [CHR 0x0A] True [cell_text (\<lambda>v. []) (u :: nat json option)] @ b
         @ writerow [CHR 0x0A] True [cell_text (\<lambda>v. []) u] @ c)"
proof -
  let ?st = "\<lparr>cmr_results_df = example_filtered_df, cmr_results_dfs = None,
              emit_asset_urls_txt = None\<rparr>
             :: (nat, string) save_state"
  let ?lt = "[CHR 0x0A]"
  let ?str = "\<lambda>v :: nat json. [] :: string"
  note inst = duplicates_stay_in_file [of ?lt True ?str ?st]
  note written = inst [THEN conjunct2, THEN conjunct2, THEN conjunct1]
  note dfs = inst [THEN conjunct2, THEN conjunct1]
  note ends = inst [THEN conjunct2, THEN conjunct2, THEN conjunct2, THEN conjunct1, rule_format]
  note twice = inst [THEN conjunct2, THEN conjunct2, THEN conjunct2, THEN conjunct2,
      THEN conjunct1, rule_format]
  have ne: "cmr_results_df ?st \<noteq> []"
    by (simp add: example_filtered_df_def)
  have dup: "\<not> distinct (map (\<lambda>(i, asset_name, asset_url, rest). asset_url) (cmr_results_df ?st))"
    by (simp add: example_filtered_df_def)
  have a: "concat (map (\<lambda>(i, asset_name, asset_url, rest). writerow ?lt True [cell_text ?str asset_url])
             (cmr_results_df ?st))
           = ''https://d/E_RFL_1.nc'' @ [CHR 0x0A] @ ''https://d/E_MASK_1.nc'' @ [CHR 0x0A]
             @ ''https://d/E_RFL_1.nc'' @ [CHR 0x0A]"
    by code_simp
  have b: "drop_duplicates (\<lambda>(i, asset_name, asset_url, rest). asset_url) (butlast (cmr_results_df ?st))
             = take 2 example_filtered_df"
    by (simp add: example_filtered_df_def drop_duplicates_def)
  have c: "writerow ?lt True [cell_text ?str (fst (snd (snd (last (cmr_results_df ?st)))))]
             = ''https://d/E_RFL_1.nc'' @ [CHR 0x0A]"
    by code_simp
  have 1: "emit_asset_urls_txt (save_asset_urls ?lt True ?str ?st)
     = Some (''https://d/E_RFL_1.nc'' @ [CHR 0x0A] @ ''https://d/E_MASK_1.nc'' @ [CHR 0x0A]
             @ ''https://d/E_RFL_1.nc'' @ [CHR 0x0A])"
    using written unfolding a .
  have 2: "cmr_results_dfs (save_asset_urls ?lt True ?str ?st) = Some (take 2 example_filtered_df)"
    using dfs unfolding b .
  have 3: "\<exists>before. the (emit_asset_urls_txt (save_asset_urls ?lt True ?str ?st))
      = before @ ''https://d/E_RFL_1.nc'' @ [CHR 0x0A]"
    using ends [OF ne] unfolding c .
  from twice [OF dup] have 4: "\<exists>a u b c. the (emit_asset_urls_txt (save_asset_urls ?lt True ?str ?st))
     = a @ writerow ?lt True [cell_text ?str u] @ b @ writerow ?lt True [cell_text ?str u] @ c"
    by blast
  from 1 2 3 4 show ?thesis by (intro conjI)
qed


section \<open>The reflectance tutorial: deleting names\<close>

text \<open>The check is sound: a notebook that passes it runs without \<open>NameError\<close>.\<close>

lemma read_names_bound:
  "set names \<subseteq> dom g \<Longrightarrow> \<exists>vs. read_names g names = Inr vs"
  unfolding read_names_def
  by (induction names) (auto split: option.splits)

lemma read_names_mono:
  "read_names g names = Inr vs \<Longrightarrow> g \<subseteq>\<^sub>m h \<Longrightarrow> read_names h names = Inr vs"
  unfolding read_names_def
proof (induction names arbitrary: vs)
  case Nil
  then show ?case by simp
next
  case (Cons n ns)
  from Cons.prems(1) obtain v where v: "g n = Some v"
    by (auto split: option.splits sum.splits)
  with Cons.prems(2) have hv: "h n = Some v"
    by (auto simp: map_le_def dom_def)
  from Cons.prems(1) v obtain ws where
    ws: "map_err (\<lambda>n. case g n of None \<Rightarrow> Inl NameError | Some v \<Rightarrow> Inr v) ns = Inr ws" "vs = v # ws"
    by (auto split: sum.splits)
  from Cons.IH [OF ws(1) Cons.prems(2)] hv ws(2) show ?case by simp
qed

lemma exec_bound:
  assumes "list_all (\<lambda>n. n \<in> set B) (reads_of c)" "set B \<subseteq> dom (globals s)"
  shows "\<exists>s'. exec c s = Inr s' \<and> set (bound_after c B) \<subseteq> dom (globals s')"
proof (cases c)
  case (Assign x src names)
  with assms have "set names \<subseteq> dom (globals s)" by (auto simp: list_all_iff)
  from read_names_bound [OF this] obtain vs where "read_names (globals s) names = Inr vs" ..
  with Assign assms(2) show ?thesis by auto
next
  case (Update x src names)
  with assms have "set (x # names) \<subseteq> dom (globals s)" by (auto simp: list_all_iff)
  from read_names_bound [OF this] obtain vs where "read_names (globals s) (x # names) = Inr vs" ..
  with Update assms(2) show ?thesis by auto
next
  case (Expr src names)
  with assms have "set names \<subseteq> dom (globals s)" by (auto simp: list_all_iff)
  from read_names_bound [OF this] obtain vs where "read_names (globals s) names = Inr vs" ..
  with Expr assms(2) show ?thesis by auto
next
  case (Del x)
  with assms obtain v where "globals s x = Some v" by (auto simp: list_all_iff)
  with Del assms(2) show ?thesis by auto
qed (use assms in auto)

lemma names_ok_run:
  "names_ok cs B \<Longrightarrow> set B \<subseteq> dom (globals s) \<Longrightarrow> \<exists>s'. run cs s = Inr s'"
proof (induction cs arbitrary: B s)
  case Nil
  then show ?case by simp
next
  case (Cons c cs)
  from Cons.prems have "list_all (\<lambda>n. n \<in> set B) (reads_of c)" and ok: "names_ok cs (bound_after c B)"
    by simp_all
  from exec_bound [OF this(1) Cons.prems(2)] obtain s1 where
    s1: "exec c s = Inr s1" "set (bound_after c B) \<subseteq> dom (globals s1)" by blast
  from Cons.IH [OF ok s1(2)] s1(1) show ?case by simp
qed

lemma map_le_del: "g \<subseteq>\<^sub>m h \<Longrightarrow> g(x := None) \<subseteq>\<^sub>m h"
  by (auto simp: map_le_def dom_def split: if_splits)

lemma exec_without_del:
  assumes "exec c s = Inr s'" "globals s \<subseteq>\<^sub>m globals t" "computed t = computed s" "\<not> is_del c"
  shows "\<exists>t'. exec c t = Inr t' \<and> computed t' = computed s' \<and> globals s' \<subseteq>\<^sub>m globals t'"
proof (cases c)
  case (Assign x src names)
  with assms(1) obtain vs where vs: "read_names (globals s) names = Inr vs"
    and s': "s' = s\<lparr>globals := (globals s)(x \<mapsto> PyVal src vs), computed := computed s @ [PyVal src vs]\<rparr>"
    by (auto simp: ebind_eq_Inr)
  from read_names_mono [OF vs assms(2)] Assign s' assms(2,3) show ?thesis
    by (simp add: map_le_upd)
next
  case (Update x src names)
  with assms(1) obtain vs where vs: "read_names (globals s) (x # names) = Inr vs"
    and s': "s' = s\<lparr>globals := (globals s)(x \<mapsto> PyVal src vs), computed := computed s @ [PyVal src vs]\<rparr>"
    by (auto simp: ebind_eq_Inr)
  from read_names_mono [OF vs assms(2)] Update s' assms(2,3) show ?thesis
    by (simp add: map_le_upd)
next
  case (Expr src names)
  with assms(1) obtain vs where vs: "read_names (globals s) names = Inr vs"
    and s': "s' = s\<lparr>computed := computed s @ [PyVal src vs]\<rparr>"
    by (auto simp: ebind_eq_Inr)
  from read_names_mono [OF vs assms(2)] Expr s' assms(2,3) show ?thesis
    by simp
next
  case (Del x)
  with assms(4) show ?thesis by simp
qed (use assms in \<open>auto simp: map_le_upd\<close>)

lemma exec_del_le:
  assumes "exec (Del x) s = Inr s'" "globals s \<subseteq>\<^sub>m globals t" "computed t = computed s"
  shows "computed t = computed s' \<and> globals s' \<subseteq>\<^sub>m globals t"
  using assms by (auto simp: map_le_del split: option.splits)

lemma run_without_del:
  "run cs s = Inr s' \<Longrightarrow> globals s \<subseteq>\<^sub>m globals t \<Longrightarrow> computed t = computed s \<Longrightarrow>
     \<exists>t'. run (without_del cs) t = Inr t' \<and> computed t' = computed s' \<and> globals s' \<subseteq>\<^sub>m globals t'"
proof (induction cs arbitrary: s t)
  case Nil
  then show ?case by (simp add: without_del_def)
next
  case (Cons c cs)
  from Cons.prems(1) obtain s1 where s1: "exec c s = Inr s1" "run cs s1 = Inr s'"
    by (auto simp: ebind_eq_Inr)
  show ?case
  proof (cases "is_del c")
    case True
    then obtain x where c: "c = Del x" by (cases c) simp_all
    from exec_del_le [OF s1(1) [unfolded c] Cons.prems(2,3)]
    have "computed t = computed s1" "globals s1 \<subseteq>\<^sub>m globals t" by simp_all
    from Cons.IH [OF s1(2) this(2) this(1)] c show ?thesis
      by (simp add: without_del_def)
  next
    case False
    from exec_without_del [OF s1(1) Cons.prems(2,3) False] obtain t1 where
      t1: "exec c t = Inr t1" "computed t1 = computed s1" "globals s1 \<subseteq>\<^sub>m globals t1" by blast
    from Cons.IH [OF s1(2) t1(3) t1(2)] t1(1) False show ?thesis
      by (simp add: without_del_def)
  qed
qed

text \<open>
  Claim C7, as the code has it. The tutorial deletes \<open>refl\<close>, \<open>wvl\<close>, \<open>loc\<close>, then
  (after binding \<open>loc\<close> again) \<open>loc\<close> and \<open>example\<close>, all after the cells that build the
  merged dataset. The notebook runs to its end without reading an unbound name, so no
  deleted name is read before it is bound again; and the notebook without its \<open>del\<close>
  statements runs too and computes the same values in the same order.
\<close>

theorem tutorial_deletions_change_nothing:
  "(\<exists>s s'. run tutorial fresh_kernel = Inr s \<and>
            run (without_del tutorial) fresh_kernel = Inr s' \<and>
            computed s' = computed s)
   \<and> tutorial = cells_1_to_9 @ cells_10_to_17 @ cells_18_to_29
   \<and> deleted cells_1_to_9 = []
   \<and> deleted cells_10_to_17 = [''refl'', ''wvl'', ''loc'', ''loc'', ''example'']
   \<and> deleted cells_18_to_29 = []"
proof (intro conjI)
  have "names_ok tutorial []"
    by code_simp
  then obtain s where s: "run tutorial fresh_kernel = Inr s"
    using names_ok_run [of tutorial "[]" fresh_kernel] by auto
  from run_without_del [OF s, of fresh_kernel] obtain s' where
    "run (without_del tutorial) fresh_kernel = Inr s'" "computed s' = computed s"
    by auto
  with s show "\<exists>s s'. run tutorial fresh_kernel = Inr s \<and>
            run (without_del tutorial) fresh_kernel = Inr s' \<and>
            computed s' = computed s"
    by blast
next
  show "tutorial = cells_1_to_9 @ cells_10_to_17 @ cells_18_to_29"
    by (rule tutorial_def)
next
  show "deleted cells_1_to_9 = []"
    by (simp add: deleted_def cells_1_to_9_def)
next
  show "deleted cells_10_to_17 = [''refl'', ''wvl'', ''loc'', ''loc'', ''example'']"
    by (simp add: deleted_def cells_10_to_17_def)
next
  show "deleted cells_18_to_29 = []"
    by (simp add: deleted_def cells_18_to_29_def)
qed

text \<open>
  The specification adds that every value computed after the \<open>del\<close> statements depends
  only on \<open>ds\<close> (and later \<open>ds_geo\<close>). The statement that binds \<open>loc\<close> again, the
  eleventh of the cells 10 to 17, reads \<open>xr\<close> and \<open>fp\<close>: its value is computed from the
  module and the file path, and not from the value of \<open>ds\<close>.
\<close>

theorem value_not_from_ds_counterexample:
  "cells_10_to_17 ! 10 = Assign ''loc'' ''xr.open_dataset(fp,group=location)'' [''xr'', ''fp'']
   \<and> map_sum id (\<lambda>s. globals s ''loc'') (run (cells_1_to_9 @ take 11 cells_10_to_17) fresh_kernel)
     = Inr (Some (PyVal ''xr.open_dataset(fp,group=location)''
         [PyVal ''import xarray as xr'' [],
          PyVal ''../data/EMIT_L2A_RFL_001_20220903T163129_2224611_012.nc'' []]))
   \<and> map_sum id (\<lambda>s. map_option
         (computed_from (PyVal ''xr.open_dataset(fp,group=location)''
            [PyVal ''import xarray as xr'' [],
             PyVal ''../data/EMIT_L2A_RFL_001_20220903T163129_2224611_012.nc'' []]))
         (globals s ''ds''))
       (run (cells_1_to_9 @ take 11 cells_10_to_17) fresh_kernel)
     = Inr (Some False)"
  by code_simp

section \<open>The reflectance tutorial: masking and scaling\<close>

lemma np_eq_Fin [simp]: "np_eq x (Fin c) \<longleftrightarrow> x = Fin c"
  by (cases x) simp_all

lemma mask_elems:
  "elems (reflectance (mask_fill_value as_element ds))
     = map (\<lambda>x. if x = Fin (as_element (- (1 / 100))) then NaN else x) (elems (reflectance ds))"
  by (simp add: mask_fill_value_def)

lemma mask_twice:
  "mask_fill_value as_element (mask_fill_value as_element ds) = mask_fill_value as_element ds"
  by (simp add: mask_fill_value_def comp_def)

text \<open>
  Claim C9. The masking assignment keeps the shape and the coordinate, puts
  not-a-number at exactly the positions whose element equals -0.01 (as the element type
  has it) and leaves every other element as it is, not-a-number included; applying it
  twice gives what applying it once gives.
\<close>

theorem mask_fill_value_exact_and_idempotent:
  "shape (reflectance (mask_fill_value as_element ds)) = shape (reflectance ds)
   \<and> bands (mask_fill_value as_element ds) = bands ds
   \<and> length (elems (reflectance (mask_fill_value as_element ds))) = length (elems (reflectance ds))
   \<and> (\<forall>i < length (elems (reflectance ds)).
        elems (reflectance (mask_fill_value as_element ds)) ! i
          = (if elems (reflectance ds) ! i = Fin (as_element (- (1 / 100))) then NaN
             else elems (reflectance ds) ! i))
   \<and> mask_fill_value as_element (mask_fill_value as_element ds) = mask_fill_value as_element ds"
proof (intro conjI allI impI)
  show "shape (reflectance (mask_fill_value as_element ds)) = shape (reflectance ds)"
    by (simp add: mask_fill_value_def)
  show "bands (mask_fill_value as_element ds) = bands ds"
    by (simp add: mask_fill_value_def)
  show "length (elems (reflectance (mask_fill_value as_element ds))) = length (elems (reflectance ds))"
    by (simp add: mask_elems)
  show "elems (reflectance (mask_fill_value as_element ds)) ! i
          = (if elems (reflectance ds) ! i = Fin (as_element (- (1 / 100))) then NaN
             else elems (reflectance ds) ! i)"
    if "i < length (elems (reflectance ds))" for i
    using that by (simp add: mask_elems)
  show "mask_fill_value as_element (mask_fill_value as_element ds) = mask_fill_value as_element ds"
    by (rule mask_twice)
qed

theorem mask_fill_value_exact_and_idempotent_witness:
  "elems (reflectance (mask_fill_value (\<lambda>r. r) example_ds)) ! 0 = NaN
   \<and> elems (reflectance (mask_fill_value (\<lambda>r. r) example_ds)) ! 3 = Fin (3 / 10)
   \<and> elems (reflectance (mask_fill_value (\<lambda>r. r) example_ds)) ! 4 = NaN
   \<and> elems (reflectance (mask_fill_value (\<lambda>r. r) example_ds)) ! 8 = PosInf
   \<and> mask_fill_value (\<lambda>r. r) (mask_fill_value (\<lambda>r. r) example_ds)
      = mask_fill_value (\<lambda>r. r) example_ds"
proof -
  note inst = mask_fill_value_exact_and_idempotent [of "\<lambda>r. r" example_ds]
  have len: "length (elems (reflectance example_ds)) = 10"
    by (simp add: example_ds_def)
  have e: "elems (reflectance example_ds) ! 0 = Fin (- (1 / 100))"
    "elems (reflectance example_ds) ! 3 = Fin (3 / 10)"
    "elems (reflectance example_ds) ! 4 = NaN"
    "elems (reflectance example_ds) ! 8 = PosInf"
    by (simp_all add: example_ds_def)
  from inst have all: "\<forall>i < length (elems (reflectance example_ds)).
        elems (reflectance (mask_fill_value (\<lambda>r. r) example_ds)) ! i
          = (if elems (reflectance example_ds) ! i = Fin (- (1 / 100)) then NaN
             else elems (reflectance example_ds) ! i)"
    by blast
  have 0: "elems (reflectance (mask_fill_value (\<lambda>r. r) example_ds)) ! 0 = NaN"
    using all [rule_format, of 0] by (simp add: len e)
  have 3: "elems (reflectance (mask_fill_value (\<lambda>r. r) example_ds)) ! 3 = Fin (3 / 10)"
    using all [rule_format, of 3] by (simp add: len e)
  have 4: "elems (reflectance (mask_fill_value (\<lambda>r. r) example_ds)) ! 4 = NaN"
    using all [rule_format, of 4] by (simp add: len e)
  have 8: "elems (reflectance (mask_fill_value (\<lambda>r. r) example_ds)) ! 8 = PosInf"
    using all [rule_format, of 8] by (simp add: len e)
  from inst have "mask_fill_value (\<lambda>r. r) (mask_fill_value (\<lambda>r. r) example_ds)
      = mask_fill_value (\<lambda>r. r) example_ds"
    by blast
  with 0 3 4 8 show ?thesis by blast
qed

lemma nan_to_num_clip_unit: "\<exists>r. nan_to_num N 1 (np_clip 0 1 x) = Fin r \<and> 0 \<le> r \<and> r \<le> 1"
  by (cases x) auto

lemma nan_to_num_clip_case:
  "nan_to_num N 1 (np_clip 0 1 x) = (case np_clip 0 1 x of NaN \<Rightarrow> Fin 1 | y \<Rightarrow> y)"
  by (cases x) auto

lemma gamma_adjust_Inr:
  assumes "gamma_adjust N ds band = Inr scaled"
  shows "\<exists>array log_02 log_mean gamma.
           sel_bands ds band = Inr array \<and>
           math_log N (Fin (literal N (2 / 10))) = Inr log_02 \<and>
           math_log N (np_nanmean N (elems array)) = Inr log_mean \<and>
           py_truediv N log_02 log_mean = Inr gamma \<and>
           shape scaled = shape array \<and>
           elems scaled = map (\<lambda>x. nan_to_num N 1 (np_clip 0 1 (np_power N x gamma))) (elems array)"
  using assms
  by (auto simp: gamma_adjust_def ebind_eq_Inr Let_def comp_def)

text \<open>When \<open>gamma_adjust\<close> returns: the band is there, both logarithms are defined, and
  the logarithm of the mean is not zero.\<close>

lemma gamma_adjust_returns_iff:
  "(\<exists>scaled. gamma_adjust N ds band = Inr scaled) \<longleftrightarrow>
     (\<exists>array log_02 log_mean. sel_bands ds band = Inr array \<and>
        math_log N (Fin (literal N (2 / 10))) = Inr log_02 \<and>
        math_log N (np_nanmean N (elems array)) = Inr log_mean \<and>
        log_mean \<noteq> Fin 0)"
  by (auto simp: gamma_adjust_def ebind_eq_Inr Let_def py_truediv_def)

text \<open>On a dimension without coordinate the band is taken by position, the last band
  at \<open>-1\<close>.\<close>

lemma sel_bands_by_position:
  "sel_bands example_scene 1
     = Inr \<lparr>shape = [1, 5], elems = [Fin 0, Fin 0, Fin 0, Fin 2, NaN]\<rparr>"
  "sel_bands example_scene (- 1) = sel_bands example_scene 1"
  "sel_bands example_scene 2 = Inl IndexError"
  by code_simp+

text \<open>
  Claim C10. Whatever the numeric library computes for the mean, the logarithms, the
  quotient and the power: an array that \<open>gamma_adjust\<close> returns has no not-a-number and
  every element of it lies in the closed interval from 0 to 1. It has the shape of the
  selected band, and each element is the element of the band raised to the exponent
  \<open>gamma\<close>, the logarithm of 0.2 divided by the logarithm of the band's mean, then
  clipped to the interval, with 1 in place of not-a-number.
\<close>

theorem gamma_adjust_unit_interval:
  assumes "gamma_adjust N ds band = Inr scaled"
  shows "(\<forall>x \<in> set (elems scaled). \<exists>r. x = Fin r \<and> 0 \<le> r \<and> r \<le> 1)
         \<and> (\<exists>array log_02 log_mean gamma.
               sel_bands ds band = Inr array \<and>
               math_log N (Fin (literal N (2 / 10))) = Inr log_02 \<and>
               math_log N (np_nanmean N (elems array)) = Inr log_mean \<and>
               py_truediv N log_02 log_mean = Inr gamma \<and>
               shape scaled = shape array \<and>
               elems scaled = map (\<lambda>x. case np_clip 0 1 (np_power N x gamma) of
                                          NaN \<Rightarrow> Fin 1 | y \<Rightarrow> y) (elems array))"
proof -
  from gamma_adjust_Inr [OF assms] obtain array log_02 log_mean gamma where
    a: "sel_bands ds band = Inr array"
       "math_log N (Fin (literal N (2 / 10))) = Inr log_02"
       "math_log N (np_nanmean N (elems array)) = Inr log_mean"
       "py_truediv N log_02 log_mean = Inr gamma"
       "shape scaled = shape array"
    and e: "elems scaled = map (\<lambda>x. nan_to_num N 1 (np_clip 0 1 (np_power N x gamma))) (elems array)"
    by blast
  have "\<forall>x \<in> set (elems scaled). \<exists>r. x = Fin r \<and> 0 \<le> r \<and> r \<le> 1"
    unfolding e using nan_to_num_clip_unit by auto
  moreover have "elems scaled = map (\<lambda>x. case np_clip 0 1 (np_power N x gamma) of
                                          NaN \<Rightarrow> Fin 1 | y \<Rightarrow> y) (elems array)"
    unfolding e by (simp add: nan_to_num_clip_case)
  ultimately show ?thesis using a by blast
qed

theorem gamma_adjust_unit_interval_witness:
  "gamma_adjust exact_numerics example_scene 1
     = Inr \<lparr>shape = [1, 5], elems = [Fin 0, Fin 0, Fin 0, Fin 1, Fin 1]\<rparr>
   \<and> (\<exists>r. Fin 1 = Fin r \<and> 0 \<le> r \<and> r \<le> 1)
   \<and> (\<exists>gamma. py_truediv exact_numerics (Fin (ln (2 / 10))) (Fin (ln (1 / 2))) = Inr gamma \<and>
         [Fin 0, Fin 0, Fin 0, Fin 1, Fin 1]
           = map (\<lambda>x. case np_clip 0 1 (np_power exact_numerics x gamma) of
                         NaN \<Rightarrow> Fin 1 | y \<Rightarrow> y) [Fin 0, Fin 0, Fin 0, Fin 2, NaN])"
proof -
  let ?scaled = "\<lparr>shape = [1, 5], elems = [Fin 0, Fin 0, Fin 0, Fin 1, Fin 1]\<rparr>"
  let ?band = "\<lparr>shape = [1, 5], elems = [Fin 0, Fin 0, Fin 0, Fin 2, NaN]\<rparr>"
  define g :: real where "g = ln (2 / 10) / ln (1 / 2)"
  have band: "sel_bands example_scene 1 = Inr ?band"
    by code_simp
  have mean: "np_nanmean exact_numerics (elems ?band) = Fin (1 / 2)"
    by (simp add: exact_numerics_def finite_values_def)
  have log_02: "math_log exact_numerics (Fin (literal exact_numerics (2 / 10))) = Inr (Fin (ln (2 / 10)))"
    by (simp add: exact_numerics_def)
  have log_mean: "math_log exact_numerics (Fin (1 / 2)) = Inr (Fin (ln (1 / 2)))"
    by (simp add: exact_numerics_def)
  have pos: "0 < g"
    unfolding g_def by (rule divide_neg_neg) simp_all
  have gamma: "py_truediv exact_numerics (Fin (ln (2 / 10))) (Fin (ln (1 / 2))) = Inr (Fin g)"
    unfolding g_def by (simp add: py_truediv_def exact_numerics_def)
  have big: "1 \<le> (2 :: real) powr g"
    using pos by (simp add: ge_one_powr_ge_zero)
  have p0: "np_power exact_numerics (Fin 0) (Fin g) = Fin 0"
    using pos by (simp add: exact_numerics_def)
  have p2: "np_clip 0 1 (np_power exact_numerics (Fin 2) (Fin g)) = Fin 1"
    using big by (simp add: exact_numerics_def)
  have pn: "np_power exact_numerics NaN (Fin g) = NaN"
    by (simp add: exact_numerics_def)
  have run: "gamma_adjust exact_numerics example_scene 1 = Inr ?scaled"
    unfolding gamma_adjust_def band ebind_Inr log_02 mean log_mean gamma Let_def
    by (simp add: p0 p2 pn)
  note inst = gamma_adjust_unit_interval [OF run]
  from inst have "\<forall>x \<in> set (elems ?scaled). \<exists>r. x = Fin r \<and> 0 \<le> r \<and> r \<le> 1"
    by (rule conjunct1)
  then have 1: "\<exists>r. Fin 1 = Fin r \<and> 0 \<le> r \<and> r \<le> 1"
    by simp
  from inst [THEN conjunct2] obtain array log_02 log_mean gamma where
    ag: "sel_bands example_scene 1 = Inr array"
        "math_log exact_numerics (Fin (literal exact_numerics (2 / 10))) = Inr log_02"
        "math_log exact_numerics (np_nanmean exact_numerics (elems array)) = Inr log_mean"
        "py_truediv exact_numerics log_02 log_mean = Inr gamma"
        "elems ?scaled = map (\<lambda>x. case np_clip 0 1 (np_power exact_numerics x gamma) of
                                  NaN \<Rightarrow> Fin 1 | y \<Rightarrow> y) (elems array)"
    by blast
  from ag(1) band have array: "array = ?band"
    by simp
  from ag(2) log_02 have l1: "log_02 = Fin (ln (2 / 10))"
    by simp
  from ag(3) have l2: "log_mean = Fin (ln (1 / 2))"
    unfolding array mean log_mean by simp
  have 2: "\<exists>gamma. py_truediv exact_numerics (Fin (ln (2 / 10))) (Fin (ln (1 / 2))) = Inr gamma \<and>
         [Fin 0, Fin 0, Fin 0, Fin 1, Fin 1]
           = map (\<lambda>x. case np_clip 0 1 (np_power exact_numerics x gamma) of
                         NaN \<Rightarrow> Fin 1 | y \<Rightarrow> y) [Fin 0, Fin 0, Fin 0, Fin 2, NaN]"
    using ag(4) ag(5) unfolding array l1 l2 by (intro exI [of _ gamma]) simp
  from run 1 2 show ?thesis by (intro conjI)
qed

end
